theory Spec2Isabelle
  imports Complex_Main "HOL-Library.AList"
begin

section \<open>Values, records and errors\<close>

text \<open>
  The program is \<^verbatim>\<open>get_zappi_history.py\<close>. A raw sample record is the dict that the
  sample source decodes from JSON. Its values are modelled as Python ints or strs (the
  calendar field \<^verbatim>\<open>dow\<close> is a day name); JSON floats, booleans and nested values are
  outside the model. The same value type serves for the fields of \<^verbatim>\<open>Day\<close>, which hold
  ints (from \<^verbatim>\<open>time.localtime\<close>) or strs (from the command line).

  A dict is an association list in insertion order; \<^verbatim>\<open>key in rec\<close> is
  \<open>map_of rec key \<noteq> None\<close>, \<^verbatim>\<open>rec[key]\<close> is \<open>map_of rec key\<close>, \<^verbatim>\<open>del rec[key]\<close> is
  \<open>AList.delete key rec\<close> and \<^verbatim>\<open>d[key] = v\<close> is \<open>AList.update key v d\<close>.

  Python's true division \<^verbatim>\<open>/\<close> yields a float. Floats are idealised as exact rationals:
  rounding is not modelled.
\<close>

datatype pyval = PInt int | PStr string

type_synonym raw_record = "(string \<times> pyval) list"

datatype error =
    KeyError string
  | TypeError
  | ZeroDivisionError
  | IndexError
  | UnboundLocalError

text \<open>A cell of a report row: \<^verbatim>\<open>None\<close>, an int or a str.\<close>

datatype cell = CNone | CInt int | CStr string

text \<open>Python truthiness of a cell, as tested by \<^verbatim>\<open>not totals[0]\<close>.\<close>

fun truthy :: "cell \<Rightarrow> bool" where
  "truthy CNone = False"
| "truthy (CInt i) = (i \<noteq> 0)"
| "truthy (CStr s) = (s \<noteq> [])"

section \<open>The power meter\<close>

text \<open>
  Modelled from the spec: the class \<^verbatim>\<open>mec.power_meter.PowerMeter\<close> is not among the
  sources. The spec gives its state as (elapsed-weighted sum, last timestamp) and says
  that \<^verbatim>\<open>add_value(power, timestamp)\<close> contributes
  \<open>power \<times> (timestamp \<midarrow> last_timestamp)\<close> to the sum and advances the last timestamp.
  A fresh meter has sum 0; its last timestamp is taken as 0 (the first sample that
  \<^verbatim>\<open>load_day\<close> adds has power 0, so the choice does not reach the sum).
\<close>

record PowerMeter =
  pm_sum :: rat
  pm_last :: int

definition PowerMeter_new :: PowerMeter where
  "PowerMeter_new = \<lparr>pm_sum = 0, pm_last = 0\<rparr>"

definition add_value :: "PowerMeter \<Rightarrow> rat \<Rightarrow> int \<Rightarrow> PowerMeter" where
  "add_value pm pwr timestamp =
     \<lparr>pm_sum = pm_sum pm + pwr * of_int (timestamp - pm_last pm), pm_last = timestamp\<rparr>"

type_synonym pm_map = "(string \<times> PowerMeter) list"

text \<open>\<^verbatim>\<open>pm_totals[key].add_value(watts, sample_time)\<close>; a missing key raises.\<close>

definition pm_add_value :: "pm_map \<Rightarrow> string \<Rightarrow> rat \<Rightarrow> int \<Rightarrow> error + pm_map" where
  "pm_add_value pm_totals key watts sample_time =
     (case map_of pm_totals key of
        None \<Rightarrow> Inl (KeyError key)
      | Some m \<Rightarrow> Inr (AList.update key (add_value m watts sample_time) pm_totals))"

section \<open>Constants of the module\<close>

definition FIELD_NAMES :: "(string \<times> string) list" where
  "FIELD_NAMES =
     [(''gep'', ''Generated''),
      (''gen'', ''Generated Negative''),
      (''h1d'', ''Phase 1 diverted''),
      (''h2d'', ''Phase 2 diverted''),
      (''h3d'', ''Phase 3 diverted''),
      (''h1b'', ''Zappi imported''),
      (''imp'', ''Imported''),
      (''exp'', ''Exported'')]"

text \<open>The local list \<^verbatim>\<open>headers\<close> of \<^verbatim>\<open>load_day\<close>.\<close>

definition headers :: "string list" where
  "headers = [''imp'', ''exp'', ''gen'', ''gep'', ''h1d'', ''h2d'', ''h3d'', ''h1b'']"

section \<open>Python arithmetic and formatting on values\<close>

text \<open>\<^verbatim>\<open>x * n\<close> for an int literal \<open>n\<close>: ints multiply, strs repeat.\<close>

definition py_mul :: "pyval \<Rightarrow> int \<Rightarrow> pyval" where
  "py_mul x n = (case x of PInt a \<Rightarrow> PInt (a * n) | PStr s \<Rightarrow> PStr (concat (replicate (nat n) s)))"

text \<open>\<^verbatim>\<open>x + y\<close>: ints add, strs concatenate, a mix raises TypeError.\<close>

definition py_add :: "pyval \<Rightarrow> pyval \<Rightarrow> error + pyval" where
  "py_add x y =
     (case (x, y) of
        (PInt a, PInt b) \<Rightarrow> Inr (PInt (a + b))
      | (PStr s, PStr t) \<Rightarrow> Inr (PStr (s @ t))
      | _ \<Rightarrow> Inl TypeError)"

text \<open>\<^verbatim>\<open>int(x)\<close> on a float: truncation toward zero.\<close>

definition py_int :: "rat \<Rightarrow> int" where
  "py_int x = (if 0 \<le> x then \<lfloor>x\<rfloor> else \<lceil>x\<rceil>)"

text \<open>Decimal digits of a natural number, and \<^verbatim>\<open>str\<close> of an int.\<close>

fun str_nat :: "nat \<Rightarrow> string" where
  "str_nat n =
     (if n < 10 then [''0123456789'' ! n]
      else str_nat (n div 10) @ [''0123456789'' ! (n mod 10)])"

declare str_nat.simps [simp del]

definition str_int :: "int \<Rightarrow> string" where
  "str_int i = (if i < 0 then CHR ''-'' # str_nat (nat (- i)) else str_nat (nat i))"

text \<open>
  The format field \<^verbatim>\<open>{:02}\<close>: an int is padded with zeros on the left to width 2; a str
  is padded with \<^verbatim>\<open>0\<close> on the right (Python 3.10 and later).
\<close>

definition fmt02 :: "pyval \<Rightarrow> string" where
  "fmt02 x =
     (case x of
        PInt i \<Rightarrow> (let s = str_int i in if length s < 2 then CHR ''0'' # s else s)
      | PStr s \<Rightarrow> s @ replicate (2 - length s) (CHR ''0''))"

section \<open>Normalising one record: the body of the loop over the samples\<close>

text \<open>
  Lines 202 to 205:
  \<^verbatim>\<open>if 'imp' in rec and 'nect1' in rec and rec['imp'] == rec['nect1']: del rec['nect1']\<close>
\<close>

definition drop_duplicate :: "string \<Rightarrow> string \<Rightarrow> raw_record \<Rightarrow> raw_record" where
  "drop_duplicate canon sec rec =
     (if map_of rec canon \<noteq> None \<and> map_of rec sec \<noteq> None \<and> map_of rec canon = map_of rec sec
      then AList.delete sec rec else rec)"

text \<open>
  Lines 206 to 211: \<^verbatim>\<open>if 'hr' in rec: hour = rec['hr']; del rec['hr']\<close>, the variable
  starting at 0.
\<close>

definition pop_field :: "string \<Rightarrow> raw_record \<Rightarrow> pyval \<times> raw_record" where
  "pop_field key rec =
     (case map_of rec key of
        Some v \<Rightarrow> (v, AList.delete key rec)
      | None \<Rightarrow> (PInt 0, rec))"

text \<open>Lines 215 and 216: \<^verbatim>\<open>for key in [...]: del rec[key]\<close>; a missing key raises.\<close>

fun del_keys :: "string list \<Rightarrow> raw_record \<Rightarrow> error + raw_record" where
  "del_keys [] rec = Inr rec"
| "del_keys (key # keys) rec =
     (if map_of rec key = None then Inl (KeyError key)
      else del_keys keys (AList.delete key rec))"

text \<open>Lines 218 and 219: \<^verbatim>\<open>volts = 1; if 'v1' in rec: volts = rec['v1'] / 10\<close>.\<close>

definition get_volts :: "raw_record \<Rightarrow> error + rat" where
  "get_volts rec =
     (case map_of rec ''v1'' of
        None \<Rightarrow> Inr 1
      | Some (PInt v) \<Rightarrow> Inr (of_int v / 10)
      | Some (PStr s) \<Rightarrow> Inl TypeError)"

text \<open>Lines 220 to 222: \<^verbatim>\<open>for key in [...]: if key in rec: del rec[key]\<close>.\<close>

fun discard_keys :: "string list \<Rightarrow> raw_record \<Rightarrow> raw_record" where
  "discard_keys [] rec = rec"
| "discard_keys (key # keys) rec =
     discard_keys keys (if map_of rec key \<noteq> None then AList.delete key rec else rec)"

text \<open>
  Lines 230 to 233: the watts of one channel value. A str value raises TypeError
  (before the divisor is looked at); a zero voltage raises ZeroDivisionError.
\<close>

definition watts_of :: "bool \<Rightarrow> rat \<Rightarrow> pyval \<Rightarrow> error + rat" where
  "watts_of hourly volts val =
     (case val of
        PStr s \<Rightarrow> Inl TypeError
      | PInt v \<Rightarrow>
          (if hourly then Inr (of_int v / (60 * 60))
           else if volts = 0 then Inl ZeroDivisionError
           else Inr (of_int v / volts * 4)))"

text \<open>Lines 227 to 239: the loop over the channel keys.\<close>

fun channels ::
  "bool \<Rightarrow> rat \<Rightarrow> int \<Rightarrow> string list \<Rightarrow> raw_record \<Rightarrow> cell list \<Rightarrow> pm_map
     \<Rightarrow> error + (raw_record \<times> cell list \<times> pm_map)" where
  "channels hourly volts sample_time [] rec row pm_totals = Inr (rec, row, pm_totals)"
| "channels hourly volts sample_time (key # keys) rec row pm_totals =
     (case map_of rec key of
        Some val \<Rightarrow>
          (case watts_of hourly volts val of
             Inl e \<Rightarrow> Inl e
           | Inr watts \<Rightarrow>
               (case pm_add_value pm_totals key watts sample_time of
                  Inl e \<Rightarrow> Inl e
                | Inr pm' \<Rightarrow>
                    channels hourly volts sample_time keys (AList.delete key rec)
                      (row @ [CInt (py_int watts)]) pm'))
      | None \<Rightarrow>
          (case pm_add_value pm_totals key 0 sample_time of
             Inl e \<Rightarrow> Inl e
           | Inr pm' \<Rightarrow>
               channels hourly volts sample_time keys rec (row @ [CNone]) pm'))"

text \<open>
  Lines 198 to 240, one pass of the loop body up to \<^verbatim>\<open>prev_sample_time = sample_time\<close>.
  The result is the row, the sample time, the accumulators and what is left of the
  record. When \<^verbatim>\<open>hr\<close> and \<^verbatim>\<open>min\<close> are both strs the sample time is a str and line 225
  raises TypeError on the subtraction.
\<close>

definition normalize ::
  "bool \<Rightarrow> int \<Rightarrow> pm_map \<Rightarrow> raw_record \<Rightarrow> error + (cell list \<times> int \<times> pm_map \<times> raw_record)" where
  "normalize hourly prev_sample_time pm_totals rec0 =
     (let rec1 = drop_duplicate ''imp'' ''nect1'' rec0;
          rec2 = drop_duplicate ''exp'' ''pect1'' rec1;
          (hour, rec3) = pop_field ''hr'' rec2;
          (minute, rec4) = pop_field ''min'' rec3
      in case py_add (py_mul hour 60) minute of
           Inl e \<Rightarrow> Inl e
         | Inr hm \<Rightarrow>
             (case del_keys [''dow'', ''yr'', ''mon'', ''dom''] rec4 of
                Inl e \<Rightarrow> Inl e
              | Inr rec5 \<Rightarrow>
                  (case get_volts rec5 of
                     Inl e \<Rightarrow> Inl e
                   | Inr volts \<Rightarrow>
                       (case py_mul hm 60 of
                          PStr s \<Rightarrow> Inl TypeError
                        | PInt sample_time \<Rightarrow>
                            (case channels hourly volts sample_time headers
                                    (discard_keys [''v1'', ''frq''] rec5)
                                    [CStr (fmt02 hour @ '':'' @ fmt02 minute),
                                     CInt (sample_time - prev_sample_time)]
                                    pm_totals of
                               Inl e \<Rightarrow> Inl e
                             | Inr (rec7, row, pm') \<Rightarrow> Inr (row, sample_time, pm', rec7))))))"

section \<open>The report of one day\<close>

text \<open>What the program prints, in order.\<close>

datatype event =
    PrintRec raw_record
  | PrintRecords nat
  | PrintTable "string list option" "cell list list"
  | PrintDay int
  | PrintJson "(string \<times> (string \<times> cell) list) list"

text \<open>
  The sample source \<^verbatim>\<open>server_conn\<close> is an external collaborator: the two queries are
  parameters, as is the list of serial numbers that \<^verbatim>\<open>zappi_list\<close> yields.
\<close>

record Day =
  tm_year :: pyval
  tm_mon :: pyval
  tm_mday :: pyval

record server =
  get_hour_data :: "string \<Rightarrow> Day \<Rightarrow> raw_record list"
  get_minute_data :: "string \<Rightarrow> Day \<Rightarrow> raw_record list"
  zappi_list :: "string list"

text \<open>Lines 190 to 196: one seeded accumulator and one table header per channel.\<close>

fun init_totals ::
  "string list \<Rightarrow> int \<Rightarrow> pm_map \<Rightarrow> string list \<Rightarrow> pm_map \<times> string list" where
  "init_totals [] prev_sample_time pm_totals table_headers = (pm_totals, table_headers)"
| "init_totals (key # keys) prev_sample_time pm_totals table_headers =
     init_totals keys prev_sample_time
       (AList.update key (add_value PowerMeter_new 0 prev_sample_time) pm_totals)
       (table_headers @
          [case map_of FIELD_NAMES key of Some name \<Rightarrow> name | None \<Rightarrow> key])"

text \<open>
  Lines 197 to 244: the loop over the records. The output so far is kept when a
  record raises.
\<close>

fun load_records ::
  "bool \<Rightarrow> raw_record list \<Rightarrow> int \<Rightarrow> pm_map \<Rightarrow> cell list list \<Rightarrow> event list
     \<Rightarrow> event list \<times> (error + (pm_map \<times> cell list list))" where
  "load_records hourly [] prev_sample_time pm_totals data out = (out, Inr (pm_totals, data))"
| "load_records hourly (rec # res) prev_sample_time pm_totals data out =
     (case normalize hourly prev_sample_time pm_totals rec of
        Inl e \<Rightarrow> (out, Inl e)
      | Inr (row, sample_time, pm', rest) \<Rightarrow>
          load_records hourly res sample_time pm' (data @ [row])
            (out @ (if rest \<noteq> [] then [PrintRec rest] else [])))"

text \<open>
  Lines 250 to 252: the totals row. The rendering \<^verbatim>\<open>str(pm_totals[key])\<close> belongs to
  the absent class and is the parameter \<open>pm_str\<close>.
\<close>

fun totals_row ::
  "(PowerMeter \<Rightarrow> string) \<Rightarrow> string list \<Rightarrow> pm_map \<Rightarrow> cell list \<Rightarrow> error + cell list" where
  "totals_row pm_str [] pm_totals row = Inr row"
| "totals_row pm_str (key # keys) pm_totals row =
     (case map_of pm_totals key of
        None \<Rightarrow> Inl (KeyError key)
      | Some m \<Rightarrow> totals_row pm_str keys pm_totals (row @ [CStr (pm_str m)]))"

text \<open>
  \<^verbatim>\<open>load_day\<close>. The global \<^verbatim>\<open>show_headers\<close> is passed in and returned. The result is
  the output and either the error raised or the returned triple with the new flag.
\<close>

definition load_day ::
  "(PowerMeter \<Rightarrow> string) \<Rightarrow> server \<Rightarrow> string \<Rightarrow> Day \<Rightarrow> bool \<Rightarrow> bool \<Rightarrow> bool \<Rightarrow> bool
     \<Rightarrow> event list \<times> (error + ((string list \<times> cell list list \<times> cell list) \<times> bool))" where
  "load_day pm_str server_conn zid day hourly totals use_json show_headers =
     (let (res, prev_sample_time) =
            (if hourly then (get_hour_data server_conn zid day, - (60 * 60))
             else (get_minute_data server_conn zid day, - 60));
          (pm_totals, table_headers) =
            init_totals headers prev_sample_time [] [''Time'', ''Duration'']
      in case load_records hourly res prev_sample_time pm_totals [] [] of
           (out, Inl e) \<Rightarrow> (out, Inl e)
         | (out, Inr (pm', data)) \<Rightarrow>
             (let out1 = out @ (if \<not> use_json then [PrintRecords (length data)] else []);
                  data1 = (if totals then [] else data)
              in case totals_row pm_str headers pm' [CStr ''Totals'', CNone] of
                   Inl e \<Rightarrow> (out1, Inl e)
                 | Inr row \<Rightarrow>
                     (let data2 = data1 @ [row]
                      in if \<not> use_json then
                           (if show_headers
                            then (out1 @ [PrintTable (Some table_headers) data2],
                                  Inr ((table_headers, data2, row), False))
                            else (out1 @ [PrintTable None data2],
                                  Inr ((table_headers, data2, row), show_headers)))
                         else (out1, Inr ((table_headers, data2, row), show_headers)))))"

section \<open>The driver\<close>

text \<open>
  The variable \<^verbatim>\<open>totals\<close> of \<^verbatim>\<open>main\<close> starts as a bool and is rebound to a totals row by
  the JSON branch and by the month loop; \<^verbatim>\<open>load_day\<close> only tests its truth value.
\<close>

datatype pyobj = OBool bool | OList "cell list"

fun py_truth :: "pyobj \<Rightarrow> bool" where
  "py_truth (OBool b) = b"
| "py_truth (OList xs) = (xs \<noteq> [])"

text \<open>The local variables of \<^verbatim>\<open>main\<close> that the option loop sets (lines 104 to 126).\<close>

record options =
  o_hourly :: bool
  o_totals :: pyobj
  o_use_json :: bool
  o_show_month :: bool
  o_day :: Day

fun apply_opts :: "(string \<times> string) list \<Rightarrow> options \<Rightarrow> options" where
  "apply_opts [] st = st"
| "apply_opts ((opt, val) # opts) st =
     apply_opts opts
       (if opt = ''--per-minute'' then st\<lparr>o_hourly := False\<rparr>
        else if opt = ''--totals'' then st\<lparr>o_totals := OBool True\<rparr>
        else if opt = ''--day'' then st\<lparr>o_day := (o_day st)\<lparr>tm_mday := PStr val\<rparr>\<rparr>
        else if opt = ''--month'' then st\<lparr>o_day := (o_day st)\<lparr>tm_mon := PStr val\<rparr>\<rparr>
        else if opt = ''--year'' then st\<lparr>o_day := (o_day st)\<lparr>tm_year := PStr val\<rparr>\<rparr>
        else if opt = ''--show-month'' then st\<lparr>o_show_month := True\<rparr>
        else if opt = ''--json'' then st\<lparr>o_use_json := True\<rparr>
        else st)"

text \<open>
  Lines 147 to 152: the fold of a totals row into a dict. The result is the dict and
  what is left of the list \<^verbatim>\<open>totals\<close> after the pops; \<^verbatim>\<open>totals[0]\<close> on an empty list
  raises IndexError.
\<close>

fun json_row ::
  "string list \<Rightarrow> cell list \<Rightarrow> (string \<times> cell) list
     \<Rightarrow> error + ((string \<times> cell) list \<times> cell list)" where
  "json_row [] totals raw = Inr (raw, totals)"
| "json_row (head # header) [] raw = Inl IndexError"
| "json_row (head # header) (t # totals) raw =
     (if \<not> truthy t \<or> head = ''Time'' then json_row header totals raw
      else json_row header totals (AList.update head t raw))"

text \<open>
  \<^verbatim>\<open>range(1, day.tm_mday + 1)\<close>: a str plus an int raises TypeError.
\<close>

definition month_range :: "pyval \<Rightarrow> error + int list" where
  "month_range mday = (case mday of PStr s \<Rightarrow> Inl TypeError | PInt n \<Rightarrow> Inr [1..n])"

text \<open>
  The variables that live across the iterations of the loops of \<^verbatim>\<open>main\<close>:
  \<^verbatim>\<open>day\<close>, \<^verbatim>\<open>totals\<close>, \<^verbatim>\<open>headers\<close> (unbound until the month loop binds it), \<^verbatim>\<open>jout\<close>
  and the global \<^verbatim>\<open>show_headers\<close>.
\<close>

record vars =
  v_day :: Day
  v_totals :: pyobj
  v_headers :: "string list option"
  v_jout :: "(string \<times> (string \<times> cell) list) list"
  v_show_headers :: bool

text \<open>Lines 157 to 166: the loop over the days of the month, for one device.\<close>

fun month_loop ::
  "(PowerMeter \<Rightarrow> string) \<Rightarrow> server \<Rightarrow> string \<Rightarrow> bool \<Rightarrow> bool \<Rightarrow> int list
     \<Rightarrow> vars \<Rightarrow> cell list list \<Rightarrow> event list
     \<Rightarrow> event list \<times> (error + (vars \<times> cell list list))" where
  "month_loop pm_str server_conn sno hourly use_json [] vs all_data out =
     (out, Inr (vs, all_data))"
| "month_loop pm_str server_conn sno hourly use_json (dom_i # doms) vs all_data out =
     (let day = (v_day vs)\<lparr>tm_mday := PInt dom_i\<rparr>
      in case load_day pm_str server_conn sno day hourly (py_truth (v_totals vs)) use_json
                (v_show_headers vs) of
           (out1, Inl e) \<Rightarrow> (out @ [PrintDay dom_i] @ out1, Inl e)
         | (out1, Inr ((hs, data, row), sh)) \<Rightarrow>
             month_loop pm_str server_conn sno hourly use_json doms
               (vs\<lparr>v_day := day, v_totals := OList row, v_headers := Some hs,
                   v_show_headers := sh\<rparr>)
               (all_data @ [row]) (out @ [PrintDay dom_i] @ out1))"

text \<open>Lines 138 to 169: the body of the loop over the devices.\<close>

definition zappi_step ::
  "(PowerMeter \<Rightarrow> string) \<Rightarrow> server \<Rightarrow> options \<Rightarrow> string \<Rightarrow> vars
     \<Rightarrow> event list \<times> (error + vars)" where
  "zappi_step pm_str server_conn st sno vs0 =
     (let vs = vs0\<lparr>v_show_headers := True\<rparr>
      in if o_use_json st then
           (case load_day pm_str server_conn sno (v_day vs) True True True (v_show_headers vs) of
              (out, Inl e) \<Rightarrow> (out, Inl e)
            | (out, Inr ((header, data, totals), sh)) \<Rightarrow>
                (case json_row header totals [] of
                   Inl e \<Rightarrow> (out, Inl e)
                 | Inr (raw, totals') \<Rightarrow>
                     (out, Inr (vs\<lparr>v_totals := OList totals',
                                    v_jout := AList.update sno raw (v_jout vs),
                                    v_show_headers := sh\<rparr>))))
         else if o_show_month st then
           (case month_range (tm_mday (v_day vs)) of
              Inl e \<Rightarrow> ([], Inl e)
            | Inr doms \<Rightarrow>
                (case month_loop pm_str server_conn sno (o_hourly st) (o_use_json st) doms
                        vs [] [] of
                   (out, Inl e) \<Rightarrow> (out, Inl e)
                 | (out, Inr (vs', all_data)) \<Rightarrow>
                     (case v_headers vs' of
                        None \<Rightarrow> (out, Inl UnboundLocalError)
                      | Some hs \<Rightarrow> (out @ [PrintTable (Some hs) all_data], Inr vs'))))
         else
           (case load_day pm_str server_conn sno (v_day vs) (o_hourly st)
                   (py_truth (v_totals vs)) (o_use_json st) (v_show_headers vs) of
              (out, Inl e) \<Rightarrow> (out, Inl e)
            | (out, Inr (res, sh)) \<Rightarrow> (out, Inr (vs\<lparr>v_show_headers := sh\<rparr>))))"

text \<open>Line 136: the loop over the devices.\<close>

fun zappi_loop ::
  "(PowerMeter \<Rightarrow> string) \<Rightarrow> server \<Rightarrow> options \<Rightarrow> string list \<Rightarrow> vars \<Rightarrow> event list
     \<Rightarrow> event list \<times> (error + vars)" where
  "zappi_loop pm_str server_conn st [] vs out = (out, Inr vs)"
| "zappi_loop pm_str server_conn st (sno # snos) vs out =
     (case zappi_step pm_str server_conn st sno vs of
        (out1, Inl e) \<Rightarrow> (out @ out1, Inl e)
      | (out1, Inr vs') \<Rightarrow> zappi_loop pm_str server_conn st snos vs' (out @ out1))"

text \<open>
  \<^verbatim>\<open>main\<close>, from the parsed options on: \<open>opts\<close> is the list that \<^verbatim>\<open>getopt\<close> returns and
  \<open>today\<close> the local date (year, month, day). Configuration, logging and the login
  are outside the model. The result is the output and the error raised, if any.
\<close>

definition main ::
  "(PowerMeter \<Rightarrow> string) \<Rightarrow> int \<times> int \<times> int \<Rightarrow> server \<Rightarrow> (string \<times> string) list
     \<Rightarrow> event list \<times> error option" where
  "main pm_str today server_conn opts =
     (let st = apply_opts opts
                 \<lparr>o_hourly = True, o_totals = OBool False, o_use_json = False,
                   o_show_month = False,
                   o_day = (case today of (y, m, d) \<Rightarrow>
                              \<lparr>tm_year = PInt y, tm_mon = PInt m, tm_mday = PInt d\<rparr>)\<rparr>
      in case zappi_loop pm_str server_conn st (zappi_list server_conn)
                \<lparr>v_day = o_day st, v_totals = o_totals st, v_headers = None, v_jout = [],
                  v_show_headers = True\<rparr> [] of
           (out, Inl e) \<Rightarrow> (out, Some e)
         | (out, Inr vs) \<Rightarrow>
             (out @ (if o_use_json st then [PrintJson (v_jout vs)] else []), None))"

section \<open>Functions used to state the properties\<close>

text \<open>The watts that one pass of the channel loop assigns, when it does not raise.\<close>

definition watts_val :: "bool \<Rightarrow> rat \<Rightarrow> pyval option \<Rightarrow> rat" where
  "watts_val hourly volts x =
     (case x of
        Some (PInt v) \<Rightarrow> (if hourly then of_int v / (60 * 60) else of_int v / volts * 4)
      | _ \<Rightarrow> 0)"

definition cell_val :: "bool \<Rightarrow> rat \<Rightarrow> pyval option \<Rightarrow> cell" where
  "cell_val hourly volts x =
     (case x of None \<Rightarrow> CNone | Some val \<Rightarrow> CInt (py_int (watts_val hourly volts x)))"

definition chan_ok :: "bool \<Rightarrow> rat \<Rightarrow> pyval option \<Rightarrow> bool" where
  "chan_ok hourly volts x =
     (case x of None \<Rightarrow> True | Some (PInt v) \<Rightarrow> hourly \<or> volts \<noteq> 0 | Some (PStr s) \<Rightarrow> False)"

text \<open>The duplicate test of lines 202 and 204.\<close>

definition duplicate :: "string \<Rightarrow> string \<Rightarrow> raw_record \<Rightarrow> bool" where
  "duplicate canon sec rec \<longleftrightarrow> map_of rec canon \<noteq> None \<and> map_of rec canon = map_of rec sec"

text \<open>The keys removed from a record before the channel loop.\<close>

definition removed_first :: "raw_record \<Rightarrow> string set" where
  "removed_first rec =
     (if duplicate ''imp'' ''nect1'' rec then {''nect1''} else {})
       \<union> (if duplicate ''exp'' ''pect1'' rec then {''pect1''} else {})
       \<union> {''hr''} \<union> {''min''} \<union> {''dow''} \<union> {''yr''} \<union> {''mon''} \<union> {''dom''}
       \<union> {''v1''} \<union> {''frq''}"

text \<open>The keys that one pass of the loop body removes from a record.\<close>

definition consumed :: "raw_record \<Rightarrow> string set" where
  "consumed rec = removed_first rec \<union> set headers"

definition field0 :: "raw_record \<Rightarrow> string \<Rightarrow> pyval" where
  "field0 rec key = (case map_of rec key of Some v \<Rightarrow> v | None \<Rightarrow> PInt 0)"

definition volts_val :: "raw_record \<Rightarrow> rat" where
  "volts_val rec = (case map_of rec ''v1'' of Some (PInt v) \<Rightarrow> of_int v / 10 | _ \<Rightarrow> 1)"

text \<open>The accumulators after lines 190 to 196, for the seed time \<open>t\<close>.\<close>

definition seed_totals :: "int \<Rightarrow> pm_map" where
  "seed_totals t = fst (init_totals headers t [] [''Time'', ''Duration''])"

definition is_int :: "pyval \<Rightarrow> bool" where
  "is_int x = (case x of PInt i \<Rightarrow> True | PStr s \<Rightarrow> False)"

text \<open>The sample time of a record whose hour and minute are ints (line 213).\<close>

definition time_val :: "raw_record \<Rightarrow> int" where
  "time_val rec =
     (case (field0 rec ''hr'', field0 rec ''min'') of
        (PInt h, PInt m) \<Rightarrow> (h * 60 + m) * 60
      | _ \<Rightarrow> 0)"

text \<open>The row of a record, given the sample time before it.\<close>

definition row_val :: "bool \<Rightarrow> int \<Rightarrow> raw_record \<Rightarrow> cell list" where
  "row_val hourly prev rec =
     [CStr (fmt02 (field0 rec ''hr'') @ '':'' @ fmt02 (field0 rec ''min'')),
      CInt (time_val rec - prev)]
     @ map (\<lambda>key. cell_val hourly (volts_val rec) (map_of rec key)) headers"

fun rows_val :: "bool \<Rightarrow> int \<Rightarrow> raw_record list \<Rightarrow> cell list list" where
  "rows_val hourly prev [] = []"
| "rows_val hourly prev (rec # res) = row_val hourly prev rec # rows_val hourly (time_val rec) res"

text \<open>What is left of a record after one pass of the loop body, and what is printed.\<close>

definition leftover :: "raw_record \<Rightarrow> raw_record" where
  "leftover rec = filter (\<lambda>p. fst p \<notin> consumed rec) rec"

definition diagnostics :: "raw_record list \<Rightarrow> event list" where
  "diagnostics res =
     concat (map (\<lambda>rec. if leftover rec \<noteq> [] then [PrintRec (leftover rec)] else []) res)"

text \<open>One accumulator after the samples of a list of records.\<close>

fun feed :: "bool \<Rightarrow> string \<Rightarrow> PowerMeter \<Rightarrow> raw_record list \<Rightarrow> PowerMeter" where
  "feed hourly key m [] = m"
| "feed hourly key m (rec # res) =
     feed hourly key
       (add_value m (watts_val hourly (volts_val rec) (map_of rec key)) (time_val rec)) res"

text \<open>The records that the loop body processes without raising.\<close>

definition record_ok :: "bool \<Rightarrow> raw_record \<Rightarrow> bool" where
  "record_ok hourly rec \<longleftrightarrow>
     is_int (field0 rec ''hr'') \<and> is_int (field0 rec ''min'') \<and>
     list_all (\<lambda>key. map_of rec key \<noteq> None) [''dow'', ''yr'', ''mon'', ''dom''] \<and>
     is_int (field0 rec ''v1'') \<and>
     list_all (\<lambda>key. chan_ok hourly (volts_val rec) (map_of rec key)) headers"

text \<open>The records of a day, the seed time and the results of \<^verbatim>\<open>load_day\<close>.\<close>

definition day_samples :: "server \<Rightarrow> string \<Rightarrow> Day \<Rightarrow> bool \<Rightarrow> raw_record list" where
  "day_samples server_conn zid day hourly =
     (if hourly then get_hour_data server_conn zid day else get_minute_data server_conn zid day)"

definition seed_time :: "bool \<Rightarrow> int" where
  "seed_time hourly = (if hourly then - 3600 else - 60)"

definition table_headers_val :: "string list" where
  "table_headers_val =
     [''Time'', ''Duration'', ''Imported'', ''Exported'', ''Generated Negative'', ''Generated'',
      ''Phase 1 diverted'', ''Phase 2 diverted'', ''Phase 3 diverted'', ''Zappi imported'']"

definition totals_val :: "(PowerMeter \<Rightarrow> string) \<Rightarrow> bool \<Rightarrow> raw_record list \<Rightarrow> cell list" where
  "totals_val pm_str hourly res =
     CStr ''Totals'' # CNone #
     map (\<lambda>key. CStr (pm_str (feed hourly key
                                (add_value PowerMeter_new 0 (seed_time hourly)) res))) headers"

definition data_val ::
  "(PowerMeter \<Rightarrow> string) \<Rightarrow> bool \<Rightarrow> bool \<Rightarrow> raw_record list \<Rightarrow> cell list list" where
  "data_val pm_str hourly totals res =
     (if totals then [] else rows_val hourly (seed_time hourly) res)
     @ [totals_val pm_str hourly res]"

definition printed_val ::
  "(PowerMeter \<Rightarrow> string) \<Rightarrow> bool \<Rightarrow> bool \<Rightarrow> bool \<Rightarrow> bool \<Rightarrow> raw_record list \<Rightarrow> event list" where
  "printed_val pm_str hourly totals use_json show_headers res =
     diagnostics res @
     (if use_json then []
      else [PrintRecords (length res),
            PrintTable (if show_headers then Some table_headers_val else None)
              (data_val pm_str hourly totals res)])"

text \<open>The field names that the loop body knows, and a record cut down to them.\<close>

definition recognized :: "string set" where
  "recognized =
     set headers \<union>
     {''hr'', ''min'', ''dow'', ''yr'', ''mon'', ''dom'', ''v1'', ''frq'', ''nect1'', ''pect1''}"

definition known_fields :: "raw_record \<Rightarrow> raw_record" where
  "known_fields rec = filter (\<lambda>p. fst p \<in> recognized) rec"

definition strip_unknown :: "server \<Rightarrow> server" where
  "strip_unknown server_conn =
     server_conn
       \<lparr>get_hour_data := (\<lambda>zid day. map known_fields (get_hour_data server_conn zid day)),
        get_minute_data := (\<lambda>zid day. map known_fields (get_minute_data server_conn zid day))\<rparr>"

section \<open>Sample inputs\<close>

text \<open>A source without samples, a rendering of a meter and a day, for the examples.\<close>

definition no_data :: server where
  "no_data = \<lparr>get_hour_data = (\<lambda>zid day. []), get_minute_data = (\<lambda>zid day. []),
               zappi_list = [''12345678'']\<rparr>"

definition show_sum :: "PowerMeter \<Rightarrow> string" where
  "show_sum m = str_int (py_int (pm_sum m))"

definition a_day :: Day where
  "a_day = \<lparr>tm_year = PInt 2024, tm_mon = PInt 3, tm_mday = PInt 4\<rparr>"

text \<open>
  An hourly sample of the first slot of a day (the source leaves out \<^verbatim>\<open>hr\<close> and \<^verbatim>\<open>min\<close>
  when they are zero), with a duplicate secondary reading and a field \<^verbatim>\<open>xyz\<close> that the
  program does not know; the row and the accumulators it yields.
\<close>

definition rec_half :: raw_record where
  "rec_half =
     [(''yr'', PInt 2024), (''mon'', PInt 3), (''dom'', PInt 4), (''dow'', PStr ''Mon''),
      (''imp'', PInt 1800), (''nect1'', PInt 1800), (''gep'', PInt 9000),
      (''v1'', PInt 2400), (''frq'', PInt 5000), (''xyz'', PInt 7)]"

definition row_half :: "cell list" where
  "row_half = [CStr ''00:00'', CInt 3600, CInt 0, CNone, CNone, CInt 2, CNone, CNone, CNone, CNone]"

definition totals_half :: pm_map where
  "totals_half =
     [(''imp'', \<lparr>pm_sum = 1800, pm_last = 0\<rparr>),
      (''exp'', \<lparr>pm_sum = 0, pm_last = 0\<rparr>),
      (''gen'', \<lparr>pm_sum = 0, pm_last = 0\<rparr>),
      (''gep'', \<lparr>pm_sum = 9000, pm_last = 0\<rparr>),
      (''h1d'', \<lparr>pm_sum = 0, pm_last = 0\<rparr>),
      (''h2d'', \<lparr>pm_sum = 0, pm_last = 0\<rparr>),
      (''h3d'', \<lparr>pm_sum = 0, pm_last = 0\<rparr>),
      (''h1b'', \<lparr>pm_sum = 0, pm_last = 0\<rparr>)]"

definition rec_minute :: raw_record where
  "rec_minute =
     [(''yr'', PInt 2024), (''mon'', PInt 3), (''dom'', PInt 4), (''dow'', PStr ''Mon''),
      (''imp'', PInt 40), (''v1'', PInt 2400), (''frq'', PInt 5000), (''pect1'', PInt 3)]"

definition one_sample :: server where
  "one_sample = \<lparr>get_hour_data = (\<lambda>zid day. [rec_half]),
                  get_minute_data = (\<lambda>zid day. [rec_minute]),
                  zappi_list = [''12345678'']\<rparr>"

definition trow_half :: "cell list" where
  "trow_half = [CStr ''Totals'', CNone, CStr ''1800'', CStr ''0'', CStr ''0'', CStr ''9000'',
                CStr ''0'', CStr ''0'', CStr ''0'', CStr ''0'']"

definition row_minute :: "cell list" where
  "row_minute = [CStr ''00:00'', CInt 60, CInt 0, CNone, CNone, CNone, CNone, CNone, CNone, CNone]"

definition totals_minute :: pm_map where
  "totals_minute =
     [(''imp'', \<lparr>pm_sum = 40, pm_last = 0\<rparr>),
      (''exp'', \<lparr>pm_sum = 0, pm_last = 0\<rparr>),
      (''gen'', \<lparr>pm_sum = 0, pm_last = 0\<rparr>),
      (''gep'', \<lparr>pm_sum = 0, pm_last = 0\<rparr>),
      (''h1d'', \<lparr>pm_sum = 0, pm_last = 0\<rparr>),
      (''h2d'', \<lparr>pm_sum = 0, pm_last = 0\<rparr>),
      (''h3d'', \<lparr>pm_sum = 0, pm_last = 0\<rparr>),
      (''h1b'', \<lparr>pm_sum = 0, pm_last = 0\<rparr>)]"

definition trow_minute :: "cell list" where
  "trow_minute = [CStr ''Totals'', CNone, CStr ''40'', CStr ''0'', CStr ''0'', CStr ''0'',
                  CStr ''0'', CStr ''0'', CStr ''0'', CStr ''0'']"

definition show_nonzero :: "PowerMeter \<Rightarrow> string" where
  "show_nonzero m = (if pm_sum m = 0 then [] else show_sum m)"

definition json_opts :: options where
  "json_opts = \<lparr>o_hourly = False, o_totals = OBool False, o_use_json = True,
                 o_show_month = False, o_day = a_day\<rparr>"

definition month_opts :: options where
  "month_opts = \<lparr>o_hourly = True, o_totals = OBool False, o_use_json = False,
                  o_show_month = True, o_day = a_day\<lparr>tm_mday := PInt 2\<rparr>\<rparr>"

definition start_vars :: "Day \<Rightarrow> vars" where
  "start_vars day = \<lparr>v_day = day, v_totals = OBool False, v_headers = None, v_jout = [],
                      v_show_headers = True\<rparr>"

definition json_vars :: vars where
  "json_vars = \<lparr>v_day = a_day, v_totals = OList [], v_headers = None,
                 v_jout = [(''12345678'', [(''Imported'', CStr ''1800''),
                                           (''Generated'', CStr ''9000'')])],
                 v_show_headers = True\<rparr>"

definition trow_nonzero :: "cell list" where
  "trow_nonzero = [CStr ''Totals'', CNone, CStr ''1800'', CStr '''', CStr '''', CStr ''9000'',
                   CStr '''', CStr '''', CStr '''', CStr '''']"

definition json_half :: "(string \<times> cell) list" where
  "json_half =
     [(''Imported'', CStr ''1800''), (''Exported'', CStr ''0''),
      (''Generated Negative'', CStr ''0''), (''Generated'', CStr ''9000''),
      (''Phase 1 diverted'', CStr ''0''), (''Phase 2 diverted'', CStr ''0''),
      (''Phase 3 diverted'', CStr ''0''), (''Zappi imported'', CStr ''0'')]"

definition rec_bad :: raw_record where
  "rec_bad =
     [(''yr'', PInt 2024), (''mon'', PInt 3), (''dom'', PInt 4), (''dow'', PStr ''Mon''),
      (''imp'', PStr ''x''), (''abc'', PInt 1)]"

definition bad_sample :: server where
  "bad_sample = \<lparr>get_hour_data = (\<lambda>zid day. [rec_bad, rec_half]),
                  get_minute_data = (\<lambda>zid day. []),
                  zappi_list = [''12345678'']\<rparr>"

definition rec_late :: raw_record where
  "rec_late =
     [(''hr'', PInt 5), (''yr'', PInt 2024), (''mon'', PInt 3), (''dom'', PInt 4),
      (''dow'', PStr ''Mon''), (''imp'', PInt 3600)]"

definition late_sample :: server where
  "late_sample = \<lparr>get_hour_data = (\<lambda>zid day. [rec_late]),
                   get_minute_data = (\<lambda>zid day. []),
                   zappi_list = [''12345678'']\<rparr>"

definition row_late :: "cell list" where
  "row_late = [CStr ''05:00'', CInt 21600, CInt 1, CNone, CNone, CNone, CNone, CNone, CNone, CNone]"

definition totals_late :: pm_map where
  "totals_late =
     [(''imp'', \<lparr>pm_sum = 21600, pm_last = 18000\<rparr>),
      (''exp'', \<lparr>pm_sum = 0, pm_last = 18000\<rparr>),
      (''gen'', \<lparr>pm_sum = 0, pm_last = 18000\<rparr>),
      (''gep'', \<lparr>pm_sum = 0, pm_last = 18000\<rparr>),
      (''h1d'', \<lparr>pm_sum = 0, pm_last = 18000\<rparr>),
      (''h2d'', \<lparr>pm_sum = 0, pm_last = 18000\<rparr>),
      (''h3d'', \<lparr>pm_sum = 0, pm_last = 18000\<rparr>),
      (''h1b'', \<lparr>pm_sum = 0, pm_last = 18000\<rparr>)]"

definition trow_late :: "cell list" where
  "trow_late = [CStr ''Totals'', CNone, CStr ''21600'', CStr ''0'', CStr ''0'', CStr ''0'',
                CStr ''0'', CStr ''0'', CStr ''0'', CStr ''0'']"

section \<open>Lemmas about the loop body\<close>

lemma pop_field_eq:
  "pop_field key rec = (case map_of rec key of Some v \<Rightarrow> v | None \<Rightarrow> PInt 0, AList.delete key rec)"
proof (cases "map_of rec key")
  case None
  then have "key \<notin> fst ` set rec" by (simp add: map_of_eq_None_iff)
  then have "AList.delete key rec = rec" by simp
  with None show ?thesis by (simp add: pop_field_def)
next
  case (Some v)
  then show ?thesis by (simp add: pop_field_def)
qed

lemma discard_keys_eq: "discard_keys keys rec = fold AList.delete keys rec"
  by (induction keys arbitrary: rec) (simp_all add: map_of_eq_None_iff)

lemma watts_of_Inr:
  "watts_of hourly volts val = Inr w \<longleftrightarrow>
     chan_ok hourly volts (Some val) \<and> w = watts_val hourly volts (Some val)"
  by (cases val) (auto simp add: watts_of_def chan_ok_def watts_val_def)

lemma pm_add_value_Inr:
  "pm_add_value pm key w st = Inr pm' \<longleftrightarrow>
     (\<exists>m. map_of pm key = Some m \<and> pm' = AList.update key (add_value m w st) pm)"
  by (cases "map_of pm key") (auto simp add: pm_add_value_def)

lemma channels_Inr:
  assumes "distinct keys"
    and "channels hourly volts st keys rec row pm = Inr (rec', row', pm')"
  shows "rec' = filter (\<lambda>p. fst p \<notin> set keys) rec \<and>
         row' = row @ map (\<lambda>key. cell_val hourly volts (map_of rec key)) keys \<and>
         (\<forall>key\<in>set keys. chan_ok hourly volts (map_of rec key) \<and> map_of pm key \<noteq> None) \<and>
         (\<forall>key. map_of pm' key =
           (if key \<in> set keys
            then map_option (\<lambda>m. add_value m (watts_val hourly volts (map_of rec key)) st)
                   (map_of pm key)
            else map_of pm key))"
  using assms
proof (induction keys arbitrary: rec row pm)
  case Nil
  then show ?case by simp
next
  case (Cons key keys)
  have dist: "distinct keys" and notin: "key \<notin> set keys"
    using Cons.prems(1) by simp_all
  define x where "x = map_of rec key"
  define rec1 where "rec1 = AList.delete key rec"
  define pm1 where
    "pm1 = AList.update key (add_value (the (map_of pm key)) (watts_val hourly volts x) st) pm"
  have ok: "chan_ok hourly volts x" and m: "map_of pm key \<noteq> None"
    and call: "channels hourly volts st keys rec1 (row @ [cell_val hourly volts x]) pm1
                 = Inr (rec', row', pm')"
  proof -
    show "chan_ok hourly volts x"
      using Cons.prems(2)
      by (cases "map_of rec key")
         (auto simp add: x_def chan_ok_def watts_of_Inr split: sum.splits)
    show "map_of pm key \<noteq> None"
      using Cons.prems(2)
      by (cases "map_of rec key") (auto simp add: pm_add_value_Inr split: sum.splits)
    show "channels hourly volts st keys rec1 (row @ [cell_val hourly volts x]) pm1
            = Inr (rec', row', pm')"
    proof (cases "map_of rec key")
      case None
      then have "key \<notin> fst ` set rec" by (simp add: map_of_eq_None_iff)
      then have "rec1 = rec" by (simp add: rec1_def)
      with Cons.prems(2) None show ?thesis
        by (auto simp add: pm_add_value_Inr x_def pm1_def cell_val_def watts_val_def
                 split: sum.splits)
    next
      case (Some val)
      with Cons.prems(2) show ?thesis
        by (auto simp add: pm_add_value_Inr watts_of_Inr x_def pm1_def rec1_def cell_val_def
                 split: sum.splits)
    qed
  qed
  note ih = Cons.IH [OF dist call]
  have same_rec: "map_of rec1 k = map_of rec k" if "k \<in> set keys" for k
    using that notin by (auto simp add: rec1_def delete_conv')
  have same_pm: "map_of pm1 k = map_of pm k" if "k \<noteq> key" for k
    using that by (simp add: pm1_def update_conv')
  have pm_key: "map_of pm1 key =
      map_option (\<lambda>m. add_value m (watts_val hourly volts x) st) (map_of pm key)"
    using m by (auto simp add: pm1_def update_conv')
  have c1: "rec' = filter (\<lambda>p. fst p \<notin> set (key # keys)) rec"
  proof -
    have "filter (\<lambda>p. fst p \<notin> set keys) rec1 = filter (\<lambda>p. fst p \<notin> set (key # keys)) rec"
      by (auto simp add: rec1_def AList.delete_eq intro: filter_cong)
    with ih show ?thesis by simp
  qed
  have c2: "row' = row @ map (\<lambda>k. cell_val hourly volts (map_of rec k)) (key # keys)"
  proof -
    have "map (\<lambda>k. cell_val hourly volts (map_of rec1 k)) keys
            = map (\<lambda>k. cell_val hourly volts (map_of rec k)) keys"
      using same_rec by (intro map_cong) simp_all
    with ih show ?thesis by (simp add: x_def)
  qed
  have c3: "\<forall>k\<in>set (key # keys). chan_ok hourly volts (map_of rec k) \<and> map_of pm k \<noteq> None"
  proof
    fix k assume k: "k \<in> set (key # keys)"
    show "chan_ok hourly volts (map_of rec k) \<and> map_of pm k \<noteq> None"
    proof (cases "k = key")
      case True
      with ok m show ?thesis by (simp add: x_def)
    next
      case False
      with k have kk: "k \<in> set keys" by simp
      with ih have "chan_ok hourly volts (map_of rec1 k) \<and> map_of pm1 k \<noteq> None" by blast
      with False kk show ?thesis by (simp add: same_rec same_pm)
    qed
  qed
  have c4: "\<forall>k. map_of pm' k =
           (if k \<in> set (key # keys)
            then map_option (\<lambda>m. add_value m (watts_val hourly volts (map_of rec k)) st)
                   (map_of pm k)
            else map_of pm k)"
  proof
    fix k
    from ih have e: "map_of pm' k =
           (if k \<in> set keys
            then map_option (\<lambda>m. add_value m (watts_val hourly volts (map_of rec1 k)) st)
                   (map_of pm1 k)
            else map_of pm1 k)" by blast
    show "map_of pm' k =
           (if k \<in> set (key # keys)
            then map_option (\<lambda>m. add_value m (watts_val hourly volts (map_of rec k)) st)
                   (map_of pm k)
            else map_of pm k)"
    proof (cases "k = key")
      case True
      with e notin pm_key show ?thesis by (simp add: x_def)
    next
      case False
      with e show ?thesis by (simp add: same_rec same_pm)
    qed
  qed
  from c1 c2 c3 c4 show ?case by blast
qed

lemma delete_filter: "AList.delete k rec = filter (\<lambda>p. fst p \<noteq> k) rec"
  by (auto simp add: AList.delete_eq intro: filter_cong)

lemma drop_duplicate_filter:
  "drop_duplicate canon sec rec = filter (\<lambda>p. \<not> (fst p = sec \<and> duplicate canon sec rec)) rec"
proof (cases "duplicate canon sec rec")
  case True
  then show ?thesis
    by (auto simp add: drop_duplicate_def duplicate_def delete_filter)
next
  case False
  then have "drop_duplicate canon sec rec = rec"
    by (auto simp add: drop_duplicate_def duplicate_def)
  with False show ?thesis by simp
qed

lemma distinct_headers: "distinct headers"
  by (simp add: headers_def)

lemma map_of_filter_keys:
  "map_of (filter (\<lambda>p. fst p \<notin> S) rec) k = (if k \<in> S then None else map_of rec k)"
  by (induction rec) auto

lemma map_of_drop_duplicate_other:
  "k \<noteq> sec \<Longrightarrow> map_of (drop_duplicate canon sec rec) k = map_of rec k"
  by (simp add: drop_duplicate_def)

lemma delete_as_filter: "AList.delete k rec = filter (\<lambda>p. fst p \<notin> {k}) rec"
  by (simp add: delete_filter)

lemma filter_keys_twice:
  "filter (\<lambda>p. fst p \<notin> S) (filter (\<lambda>p. fst p \<notin> T) rec) = filter (\<lambda>p. fst p \<notin> T \<union> S) rec"
  by (induction rec) auto

lemma drop_duplicate_as_filter:
  "drop_duplicate canon sec rec =
     filter (\<lambda>p. fst p \<notin> (if duplicate canon sec rec then {sec} else {})) rec"
  by (simp add: drop_duplicate_filter)

lemma drop_both:
  "drop_duplicate ''exp'' ''pect1'' (drop_duplicate ''imp'' ''nect1'' rec) =
     filter (\<lambda>p. fst p \<notin> (if duplicate ''imp'' ''nect1'' rec then {''nect1''} else {})
                          \<union> (if duplicate ''exp'' ''pect1'' rec then {''pect1''} else {})) rec"
proof -
  define rec1 where "rec1 = drop_duplicate ''imp'' ''nect1'' rec"
  have d: "duplicate ''exp'' ''pect1'' rec1 = duplicate ''exp'' ''pect1'' rec"
    by (simp add: rec1_def duplicate_def map_of_drop_duplicate_other)
  have a: "drop_duplicate ''exp'' ''pect1'' rec1 =
          filter (\<lambda>p. fst p \<notin> (if duplicate ''exp'' ''pect1'' rec then {''pect1''} else {})) rec1"
    unfolding drop_duplicate_as_filter [of _ _ rec1] d ..
  have b: "rec1 =
          filter (\<lambda>p. fst p \<notin> (if duplicate ''imp'' ''nect1'' rec then {''nect1''} else {})) rec"
    unfolding rec1_def by (rule drop_duplicate_as_filter)
  have "drop_duplicate ''exp'' ''pect1'' rec1 =
          filter (\<lambda>p. fst p \<notin> (if duplicate ''exp'' ''pect1'' rec then {''pect1''} else {}))
            (filter (\<lambda>p. fst p \<notin> (if duplicate ''imp'' ''nect1'' rec then {''nect1''} else {}))
               rec)"
    using a b by simp
  then show ?thesis
    unfolding rec1_def filter_keys_twice .
qed

lemma before_channels_filter:
  "discard_keys [''v1'', ''frq'']
     (AList.delete ''dom'' (AList.delete ''mon'' (AList.delete ''yr'' (AList.delete ''dow''
        (AList.delete ''min'' (AList.delete ''hr''
           (drop_duplicate ''exp'' ''pect1'' (drop_duplicate ''imp'' ''nect1'' rec))))))))
   = filter (\<lambda>p. fst p \<notin> removed_first rec) rec"
  unfolding drop_both discard_keys_eq fold.simps comp_def id_def delete_as_filter
    filter_keys_twice removed_first_def
  by (simp only: Un_assoc)

lemma headers_not_removed_first: "key \<in> set headers \<Longrightarrow> key \<notin> removed_first rec"
  by (auto simp add: headers_def removed_first_def)

lemma map_of_before_channels:
  "key \<in> set headers \<Longrightarrow>
     map_of (filter (\<lambda>p. fst p \<notin> removed_first rec) rec) key = map_of rec key"
  by (simp add: map_of_filter_keys headers_not_removed_first)

lemma get_volts_cong:
  "map_of rec1 ''v1'' = map_of rec2 ''v1'' \<Longrightarrow> get_volts rec1 = get_volts rec2"
  by (simp add: get_volts_def)

lemma del_calendar:
  "del_keys [''dow'', ''yr'', ''mon'', ''dom''] rec =
     (if map_of rec ''dow'' = None then Inl (KeyError ''dow'')
      else if map_of rec ''yr'' = None then Inl (KeyError ''yr'')
      else if map_of rec ''mon'' = None then Inl (KeyError ''mon'')
      else if map_of rec ''dom'' = None then Inl (KeyError ''dom'')
      else Inr (AList.delete ''dom'' (AList.delete ''mon'' (AList.delete ''yr''
                  (AList.delete ''dow'' rec)))))"
  by simp

lemma normalize_alt:
  "normalize hourly prev pm rec =
     (case py_add (py_mul (field0 rec ''hr'') 60) (field0 rec ''min'') of
        Inl e \<Rightarrow> Inl e
      | Inr hm \<Rightarrow>
          if map_of rec ''dow'' = None then Inl (KeyError ''dow'')
          else if map_of rec ''yr'' = None then Inl (KeyError ''yr'')
          else if map_of rec ''mon'' = None then Inl (KeyError ''mon'')
          else if map_of rec ''dom'' = None then Inl (KeyError ''dom'')
          else (case get_volts rec of
                  Inl e \<Rightarrow> Inl e
                | Inr volts \<Rightarrow>
                    (case py_mul hm 60 of
                       PStr s \<Rightarrow> Inl TypeError
                     | PInt sample_time \<Rightarrow>
                         (case channels hourly volts sample_time headers
                                 (filter (\<lambda>p. fst p \<notin> removed_first rec) rec)
                                 [CStr (fmt02 (field0 rec ''hr'') @ '':'' @
                                        fmt02 (field0 rec ''min'')),
                                  CInt (sample_time - prev)] pm of
                            Inl e \<Rightarrow> Inl e
                          | Inr (rec7, row, pm') \<Rightarrow> Inr (row, sample_time, pm', rec7)))))"
proof -
  define rec2 where
    "rec2 = drop_duplicate ''exp'' ''pect1'' (drop_duplicate ''imp'' ''nect1'' rec)"
  define rec4 where "rec4 = AList.delete ''min'' (AList.delete ''hr'' rec2)"
  define rec5 where "rec5 = AList.delete ''dom'' (AList.delete ''mon'' (AList.delete ''yr''
                              (AList.delete ''dow'' rec4)))"
  have hr: "map_of rec2 ''hr'' = map_of rec ''hr''"
    by (simp add: rec2_def map_of_drop_duplicate_other)
  have mi: "map_of (AList.delete ''hr'' rec2) ''min'' = map_of rec ''min''"
    by (simp add: rec2_def map_of_drop_duplicate_other)
  have dow: "map_of rec4 ''dow'' = map_of rec ''dow''"
    by (simp add: rec4_def rec2_def map_of_drop_duplicate_other)
  have yr: "map_of rec4 ''yr'' = map_of rec ''yr''"
    by (simp add: rec4_def rec2_def map_of_drop_duplicate_other)
  have mon: "map_of rec4 ''mon'' = map_of rec ''mon''"
    by (simp add: rec4_def rec2_def map_of_drop_duplicate_other)
  have dom: "map_of rec4 ''dom'' = map_of rec ''dom''"
    by (simp add: rec4_def rec2_def map_of_drop_duplicate_other)
  have "map_of rec5 ''v1'' = map_of rec ''v1''"
    by (simp add: rec5_def rec4_def rec2_def map_of_drop_duplicate_other)
  then have volts: "get_volts rec5 = get_volts rec"
    by (rule get_volts_cong)
  have r6: "discard_keys [''v1'', ''frq''] rec5 = filter (\<lambda>p. fst p \<notin> removed_first rec) rec"
    unfolding rec5_def rec4_def rec2_def by (rule before_channels_filter)
  have cal: "del_keys [''dow'', ''yr'', ''mon'', ''dom''] rec4 =
     (if map_of rec ''dow'' = None then Inl (KeyError ''dow'')
      else if map_of rec ''yr'' = None then Inl (KeyError ''yr'')
      else if map_of rec ''mon'' = None then Inl (KeyError ''mon'')
      else if map_of rec ''dom'' = None then Inl (KeyError ''dom'')
      else Inr rec5)"
    unfolding del_calendar dow yr mon dom rec5_def ..
  have n: "normalize hourly prev pm rec =
     (case py_add (py_mul (field0 rec ''hr'') 60) (field0 rec ''min'') of
        Inl e \<Rightarrow> Inl e
      | Inr hm \<Rightarrow>
         (case del_keys [''dow'', ''yr'', ''mon'', ''dom''] rec4 of
            Inl e \<Rightarrow> Inl e
          | Inr rec5 \<Rightarrow>
              (case get_volts rec5 of
                  Inl e \<Rightarrow> Inl e
                | Inr volts \<Rightarrow>
                    (case py_mul hm 60 of
                       PStr s \<Rightarrow> Inl TypeError
                     | PInt sample_time \<Rightarrow>
                         (case channels hourly volts sample_time headers
                                 (discard_keys [''v1'', ''frq''] rec5)
                                 [CStr (fmt02 (field0 rec ''hr'') @ '':'' @
                                        fmt02 (field0 rec ''min'')),
                                  CInt (sample_time - prev)] pm of
                            Inl e \<Rightarrow> Inl e
                          | Inr (rec7, row, pm') \<Rightarrow> Inr (row, sample_time, pm', rec7))))))"
    unfolding normalize_def Let_def pop_field_eq rec2_def [symmetric] prod.case hr mi
      rec4_def [symmetric] field0_def ..
  show ?thesis
    unfolding n cal by (simp add: volts split: sum.splits) (simp only: r6 simp_thms)
qed

lemma get_volts_Inr:
  "get_volts rec = Inr volts \<Longrightarrow>
     volts = volts_val rec \<and>
     (map_of rec ''v1'' = None \<or> (\<exists>v. map_of rec ''v1'' = Some (PInt v)))"
  by (auto simp add: get_volts_def volts_val_def split: option.splits pyval.splits)

lemma sample_time_Inr:
  "py_add (py_mul x 60) y = Inr hm \<Longrightarrow> py_mul hm 60 = PInt st \<Longrightarrow>
     \<exists>h m. x = PInt h \<and> y = PInt m \<and> st = (h * 60 + m) * 60"
  by (cases x; cases y) (auto simp add: py_add_def py_mul_def)

lemma normalize_Inr:
  assumes "normalize hourly prev pm rec = Inr (row, st, pm', rest)"
  shows "(\<exists>h m. field0 rec ''hr'' = PInt h \<and> field0 rec ''min'' = PInt m \<and>
           st = (h * 60 + m) * 60 \<and>
           row = [CStr (fmt02 (PInt h) @ '':'' @ fmt02 (PInt m)), CInt (st - prev)]
                   @ map (\<lambda>key. cell_val hourly (volts_val rec) (map_of rec key)) headers)
    \<and> rest = filter (\<lambda>p. fst p \<notin> consumed rec) rec
    \<and> (\<forall>key\<in>set headers.
          chan_ok hourly (volts_val rec) (map_of rec key) \<and> map_of pm key \<noteq> None)
    \<and> (\<forall>key. map_of pm' key =
           (if key \<in> set headers
            then map_option
                   (\<lambda>m. add_value m (watts_val hourly (volts_val rec) (map_of rec key)) st)
                   (map_of pm key)
            else map_of pm key))
    \<and> (\<forall>key\<in>set [''dow'', ''yr'', ''mon'', ''dom'']. map_of rec key \<noteq> None)
    \<and> (map_of rec ''v1'' = None \<or> (\<exists>v. map_of rec ''v1'' = Some (PInt v)))"
proof -
  define rec6 where "rec6 = filter (\<lambda>p. fst p \<notin> removed_first rec) rec"
  from assms obtain hm volts where
    hm: "py_add (py_mul (field0 rec ''hr'') 60) (field0 rec ''min'') = Inr hm"
    and cal: "\<forall>key\<in>set [''dow'', ''yr'', ''mon'', ''dom'']. map_of rec key \<noteq> None"
    and vo: "get_volts rec = Inr volts"
    and st: "py_mul hm 60 = PInt st"
    and ch: "channels hourly volts st headers rec6
               [CStr (fmt02 (field0 rec ''hr'') @ '':'' @ fmt02 (field0 rec ''min'')),
                CInt (st - prev)] pm = Inr (rest, row, pm')"
    unfolding normalize_alt rec6_def [symmetric]
    by (auto split: sum.splits pyval.splits if_splits)
  from sample_time_Inr [OF hm st] obtain h m where
    time: "field0 rec ''hr'' = PInt h" "field0 rec ''min'' = PInt m" "st = (h * 60 + m) * 60"
    by blast
  from get_volts_Inr [OF vo] have volts: "volts = volts_val rec"
    and v1: "map_of rec ''v1'' = None \<or> (\<exists>v. map_of rec ''v1'' = Some (PInt v))"
    by simp_all
  have m6: "map_of rec6 key = map_of rec key" if "key \<in> set headers" for key
    unfolding rec6_def using that by (rule map_of_before_channels)
  note chs = channels_Inr [OF distinct_headers ch]
  have rest: "rest = filter (\<lambda>p. fst p \<notin> consumed rec) rec"
  proof -
    have "rest = filter (\<lambda>p. fst p \<notin> set headers) rec6" using chs by blast
    then show ?thesis unfolding rec6_def filter_keys_twice consumed_def .
  qed
  have cells: "map (\<lambda>key. cell_val hourly volts (map_of rec6 key)) headers
                 = map (\<lambda>key. cell_val hourly (volts_val rec) (map_of rec key)) headers"
    using m6 volts by (intro map_cong) simp_all
  have row: "\<exists>h m. field0 rec ''hr'' = PInt h \<and> field0 rec ''min'' = PInt m \<and>
           st = (h * 60 + m) * 60 \<and>
           row = [CStr (fmt02 (PInt h) @ '':'' @ fmt02 (PInt m)), CInt (st - prev)]
                   @ map (\<lambda>key. cell_val hourly (volts_val rec) (map_of rec key)) headers"
    using time chs cells by auto
  have oks: "\<forall>key\<in>set headers.
          chan_ok hourly (volts_val rec) (map_of rec key) \<and> map_of pm key \<noteq> None"
    using chs m6 volts by auto
  have pms: "\<forall>key. map_of pm' key =
           (if key \<in> set headers
            then map_option
                   (\<lambda>m. add_value m (watts_val hourly (volts_val rec) (map_of rec key)) st)
                   (map_of pm key)
            else map_of pm key)"
    using chs m6 volts by auto
  from row rest oks pms cal v1 show ?thesis by blast
qed

lemma normalize_row_nth:
  assumes "normalize hourly prev pm rec = Inr (row, st, pm', rest)" and "i < length headers"
  shows "row ! (i + 2) = cell_val hourly (volts_val rec) (map_of rec (headers ! i))"
proof -
  from normalize_Inr [OF assms(1)] obtain a b where
    "row = [a, b] @ map (\<lambda>key. cell_val hourly (volts_val rec) (map_of rec key)) headers"
    by blast
  with assms(2) show ?thesis by (simp add: nth_append)
qed

lemma normalize_meter:
  assumes "normalize hourly prev pm rec = Inr (row, st, pm', rest)" and "key \<in> set headers"
  shows "\<exists>m. map_of pm key = Some m \<and>
             map_of pm' key =
               Some (add_value m (watts_val hourly (volts_val rec) (map_of rec key)) st)"
proof -
  from normalize_Inr [OF assms(1)] assms(2) have "map_of pm key \<noteq> None"
    and "map_of pm' key =
           map_option (\<lambda>m. add_value m (watts_val hourly (volts_val rec) (map_of rec key)) st)
             (map_of pm key)"
    by simp_all
  then show ?thesis by auto
qed

lemma normalize_chan_ok:
  assumes "normalize hourly prev pm rec = Inr (row, st, pm', rest)" and "key \<in> set headers"
  shows "chan_ok hourly (volts_val rec) (map_of rec key)"
  using normalize_Inr [OF assms(1)] assms(2) by simp

lemma py_int_fraction:
  "py_int (numeral a / numeral b) = numeral a div numeral b"
  "py_int (1 / numeral b) = 1 div numeral b"
  "py_int (- (numeral a / numeral b)) = - (numeral a div numeral b)"
  "py_int (- (1 / numeral b)) = - (1 div numeral b)"
  "py_int (numeral a) = numeral a"
  "py_int (- numeral a) = - numeral a"
  "py_int 0 = 0"
  "py_int 1 = 1"
proof -
  have pos: "py_int (of_int x / of_int y) = x div y" if "0 \<le> x" "0 < y" for x y
    using that by (simp add: py_int_def floor_divide_of_int_eq)
  have neg: "py_int (- (of_int x / of_int y)) = - (x div y)" if "0 \<le> x" "0 < y" for x y
  proof (cases "of_int x / of_int y = (0::rat)")
    case True
    with that have "x = 0" by simp
    then show ?thesis by (simp add: py_int_def)
  next
    case False
    with that have "(0::rat) < of_int x / of_int y" by (simp add: less_le)
    then have "py_int (- (of_int x / of_int y)) = \<lceil>- (of_int x / of_int y :: rat)\<rceil>"
      by (simp add: py_int_def)
    also have "\<dots> = - \<lfloor>of_int x / of_int y :: rat\<rfloor>" by (simp add: ceiling_def)
    finally show ?thesis by (simp add: floor_divide_of_int_eq)
  qed
  show "py_int (numeral a / numeral b) = numeral a div numeral b"
    using pos [of "numeral a" "numeral b"] by simp
  show "py_int (1 / numeral b) = 1 div numeral b"
    using pos [of 1 "numeral b"] by simp
  show "py_int (- (numeral a / numeral b)) = - (numeral a div numeral b)"
    using neg [of "numeral a" "numeral b"] by simp
  show "py_int (- (1 / numeral b)) = - (1 div numeral b)"
    using neg [of 1 "numeral b"] by simp
  show "py_int (numeral a) = numeral a" "py_int (- numeral a) = - numeral a"
    "py_int 0 = 0" "py_int 1 = 1"
    by (simp_all add: py_int_def)
qed

section \<open>Lemmas about the report and the driver\<close>

lemma init_totals_headers:
  "init_totals headers t [] [''Time'', ''Duration''] =
     (map (\<lambda>key. (key, add_value PowerMeter_new 0 t)) headers,
      [''Time'', ''Duration'', ''Imported'', ''Exported'', ''Generated Negative'', ''Generated'',
       ''Phase 1 diverted'', ''Phase 2 diverted'', ''Phase 3 diverted'', ''Zappi imported''])"
  by (simp add: headers_def FIELD_NAMES_def)

lemma totals_row_seeded:
  "totals_row pm_str headers (map (\<lambda>key. (key, z)) headers) row =
     Inr (row @ map (\<lambda>key. CStr (pm_str z)) headers)"
  by (simp add: headers_def)

lemma apply_opts_json:
  "o_use_json (apply_opts opts st) \<longleftrightarrow> o_use_json st \<or> ''--json'' \<in> fst ` set opts"
proof (induction opts arbitrary: st)
  case Nil
  show ?case by simp
next
  case (Cons p opts)
  obtain opt val where p: "p = (opt, val)" by (cases p)
  show ?case
    unfolding p apply_opts.simps Cons.IH
    by (simp split: if_splits)
qed

lemma apply_opts_show_month:
  "o_show_month (apply_opts opts st) \<longleftrightarrow> o_show_month st \<or> ''--show-month'' \<in> fst ` set opts"
proof (induction opts arbitrary: st)
  case Nil
  show ?case by simp
next
  case (Cons p opts)
  obtain opt val where p: "p = (opt, val)" by (cases p)
  show ?case
    unfolding p apply_opts.simps Cons.IH
    by (simp split: if_splits)
qed

lemma apply_opts_day:
  "tm_mday (o_day (apply_opts opts st)) =
     (case filter (\<lambda>p. fst p = ''--day'') opts of
        [] \<Rightarrow> tm_mday (o_day st)
      | ps \<Rightarrow> PStr (snd (last ps)))"
proof (induction opts arbitrary: st)
  case Nil
  show ?case by simp
next
  case (Cons p opts)
  obtain opt val where p: "p = (opt, val)" by (cases p)
  show ?case
    unfolding p apply_opts.simps Cons.IH
    by (cases "filter (\<lambda>p. fst p = ''--day'') opts") (simp_all split: if_splits)
qed

lemma seed_totals_eq:
  "seed_totals t = map (\<lambda>key. (key, add_value PowerMeter_new 0 t)) headers"
  by (simp add: seed_totals_def init_totals_headers)

lemma normalize_rec_half:
  "normalize True (- 3600) (seed_totals (- 3600)) rec_half =
     Inr (row_half, 0, totals_half, [(''xyz'', PInt 7)])"
  by (simp add: normalize_def seed_totals_eq rec_half_def row_half_def totals_half_def
        headers_def drop_duplicate_def pop_field_def py_add_def py_mul_def get_volts_def
        watts_of_def pm_add_value_def add_value_def PowerMeter_new_def py_int_fraction
        fmt02_def str_int_def str_nat.simps)

lemma is_int_iff: "is_int x \<longleftrightarrow> (\<exists>i. x = PInt i)"
  by (cases x) (simp_all add: is_int_def)

lemma normalize_values:
  assumes "normalize hourly prev pm rec = Inr (row, st, pm', rest)"
  shows "st = time_val rec" and "row = row_val hourly prev rec" and "rest = leftover rec"
    and "record_ok hourly rec"
proof -
  from normalize_Inr [OF assms] obtain h m where
    t: "field0 rec ''hr'' = PInt h" "field0 rec ''min'' = PInt m" "st = (h * 60 + m) * 60"
    and r: "row = [CStr (fmt02 (PInt h) @ '':'' @ fmt02 (PInt m)), CInt (st - prev)]
                   @ map (\<lambda>key. cell_val hourly (volts_val rec) (map_of rec key)) headers"
    and l: "rest = filter (\<lambda>p. fst p \<notin> consumed rec) rec"
    and ok: "\<forall>key\<in>set headers. chan_ok hourly (volts_val rec) (map_of rec key)"
    and cal: "\<forall>key\<in>set [''dow'', ''yr'', ''mon'', ''dom'']. map_of rec key \<noteq> None"
    and v: "map_of rec ''v1'' = None \<or> (\<exists>v. map_of rec ''v1'' = Some (PInt v))"
    by blast
  show st: "st = time_val rec" using t by (simp add: time_val_def)
  show "row = row_val hourly prev rec" using r t st by (simp add: row_val_def)
  show "rest = leftover rec" using l by (simp add: leftover_def)
  from v have "is_int (field0 rec ''v1'')"
    by (auto simp add: field0_def is_int_def)
  with t ok cal show "record_ok hourly rec"
    unfolding record_ok_def list_all_iff by (simp add: is_int_def)
qed

lemma channels_total:
  assumes "distinct keys"
    and "\<forall>key\<in>set keys. chan_ok hourly volts (map_of rec key) \<and> map_of pm key \<noteq> None"
  shows "\<exists>r. channels hourly volts st keys rec row pm = Inr r"
  using assms
proof (induction keys arbitrary: rec row pm)
  case Nil
  show ?case by simp
next
  case (Cons key keys)
  from Cons.prems obtain m where m: "map_of pm key = Some m"
    and ok: "chan_ok hourly volts (map_of rec key)"
    and dist: "distinct keys" and notin: "key \<notin> set keys"
    and later: "\<forall>k\<in>set keys. chan_ok hourly volts (map_of rec k) \<and> map_of pm k \<noteq> None"
    by auto
  have step: "\<exists>r. channels hourly volts st keys rec1 row1 (AList.update key x pm) = Inr r"
    if "\<forall>k\<in>set keys. map_of rec1 k = map_of rec k" for rec1 row1 x
  proof (rule Cons.IH [OF dist])
    show "\<forall>k\<in>set keys. chan_ok hourly volts (map_of rec1 k) \<and>
            map_of (AList.update key x pm) k \<noteq> None"
      using that later notin by (auto simp add: update_conv')
  qed
  show ?case
  proof (cases "map_of rec key")
    case None
    with m step [of rec] show ?thesis
      by (simp add: pm_add_value_def)
  next
    case (Some val)
    with ok have w: "watts_of hourly volts val = Inr (watts_val hourly volts (Some val))"
      by (simp add: watts_of_Inr)
    have "\<forall>k\<in>set keys. map_of (AList.delete key rec) k = map_of rec k"
      using notin by (auto simp add: delete_conv')
    from step [OF this] Some w m show ?thesis
      by (simp add: pm_add_value_def)
  qed
qed

lemma normalize_total:
  assumes "record_ok hourly rec" and "\<forall>key\<in>set headers. map_of pm key \<noteq> None"
  shows "\<exists>r. normalize hourly prev pm rec = Inr r"
proof -
  from assms(1) obtain h m where
    t: "field0 rec ''hr'' = PInt h" "field0 rec ''min'' = PInt m"
    and cal: "map_of rec ''dow'' \<noteq> None" "map_of rec ''yr'' \<noteq> None"
      "map_of rec ''mon'' \<noteq> None" "map_of rec ''dom'' \<noteq> None"
    and v: "is_int (field0 rec ''v1'')"
    and ok: "\<forall>key\<in>set headers. chan_ok hourly (volts_val rec) (map_of rec key)"
    unfolding record_ok_def list_all_iff by (auto simp add: is_int_iff)
  from v have volts: "get_volts rec = Inr (volts_val rec)"
    by (auto simp add: get_volts_def volts_val_def field0_def is_int_def
          split: option.splits pyval.splits)
  have "\<forall>key\<in>set headers.
          chan_ok hourly (volts_val rec)
            (map_of (filter (\<lambda>p. fst p \<notin> removed_first rec) rec) key) \<and>
          map_of pm key \<noteq> None"
    using ok assms(2) by (simp add: map_of_before_channels)
  from channels_total [OF distinct_headers this]
  obtain r where "channels hourly (volts_val rec) ((h * 60 + m) * 60) headers
           (filter (\<lambda>p. fst p \<notin> removed_first rec) rec)
           [CStr (fmt02 (field0 rec ''hr'') @ '':'' @ fmt02 (field0 rec ''min'')),
            CInt ((h * 60 + m) * 60 - prev)] pm = Inr r"
    by blast
  then show ?thesis
    unfolding normalize_alt using t cal volts
    by (cases r) (simp add: py_add_def py_mul_def)
qed

lemma normalize_keeps_meters:
  assumes "normalize hourly prev pm rec = Inr (row, st, pm', rest)"
  shows "\<forall>key\<in>set headers. map_of pm' key \<noteq> None"
  using normalize_meter [OF assms] by fastforce

lemma length_rows_val [simp]: "length (rows_val hourly prev res) = length res"
  by (induction res arbitrary: prev) simp_all

lemma load_records_Inr:
  assumes "load_records hourly res prev pm data out = (out', Inr (pm', data'))"
  shows "data' = data @ rows_val hourly prev res \<and>
         out' = out @ diagnostics res \<and>
         list_all (record_ok hourly) res \<and>
         (\<forall>key\<in>set headers. \<forall>m. map_of pm key = Some m \<longrightarrow>
            map_of pm' key = Some (feed hourly key m res))"
  using assms
proof (induction res arbitrary: prev pm data out)
  case Nil
  then show ?case by (simp add: diagnostics_def)
next
  case (Cons rec res)
  from Cons.prems obtain row st pm1 rest where
    n: "normalize hourly prev pm rec = Inr (row, st, pm1, rest)"
    and call: "load_records hourly res st pm1 (data @ [row])
                 (out @ (if rest \<noteq> [] then [PrintRec rest] else [])) = (out', Inr (pm', data'))"
    by (auto split: sum.splits)
  note v = normalize_values [OF n]
  note ih = Cons.IH [OF call]
  have d: "data' = data @ rows_val hourly prev (rec # res)"
    using ih v by simp
  have o: "out' = out @ diagnostics (rec # res)"
    using ih v by (simp add: diagnostics_def)
  have k: "list_all (record_ok hourly) (rec # res)"
    using ih v by simp
  have f: "\<forall>key\<in>set headers. \<forall>m. map_of pm key = Some m \<longrightarrow>
            map_of pm' key = Some (feed hourly key m (rec # res))"
  proof (intro ballI allI impI)
    fix key m
    assume key: "key \<in> set headers" and m: "map_of pm key = Some m"
    from normalize_meter [OF n key] m v(1)
    have "map_of pm1 key =
            Some (add_value m (watts_val hourly (volts_val rec) (map_of rec key)) (time_val rec))"
      by simp
    with ih key show "map_of pm' key = Some (feed hourly key m (rec # res))"
      by simp
  qed
  from d o k f show ?case by blast
qed

lemma load_records_total:
  assumes "list_all (record_ok hourly) res" and "\<forall>key\<in>set headers. map_of pm key \<noteq> None"
  shows "\<exists>r. snd (load_records hourly res prev pm data out) = Inr r"
  using assms
proof (induction res arbitrary: prev pm data out)
  case Nil
  show ?case by simp
next
  case (Cons rec res)
  from Cons.prems have ok: "record_ok hourly rec" and rest: "list_all (record_ok hourly) res"
    by simp_all
  from normalize_total [OF ok Cons.prems(2)] obtain row st pm1 rest' where
    n: "normalize hourly prev pm rec = Inr (row, st, pm1, rest')"
    by (metis prod_cases4)
  from Cons.IH [OF rest normalize_keeps_meters [OF n]] n show ?case
    by simp
qed

lemma totals_row_Inr:
  assumes "\<forall>key\<in>set keys. map_of pm key = Some (f key)"
  shows "totals_row pm_str keys pm row = Inr (row @ map (\<lambda>key. CStr (pm_str (f key))) keys)"
  using assms by (induction keys arbitrary: row) simp_all

lemma map_of_seeded:
  "key \<in> set keys \<Longrightarrow> map_of (map (\<lambda>key. (key, z)) keys) key = Some z"
  by (induction keys) auto

lemma load_day_start:
  "load_day pm_str server_conn zid day hourly totals use_json show_headers =
     (case load_records hourly (day_samples server_conn zid day hourly) (seed_time hourly)
             (map (\<lambda>key. (key, add_value PowerMeter_new 0 (seed_time hourly))) headers) [] [] of
           (out, Inl e) \<Rightarrow> (out, Inl e)
         | (out, Inr (pm', data)) \<Rightarrow>
             (case totals_row pm_str headers pm' [CStr ''Totals'', CNone] of
                Inl e \<Rightarrow> (out @ (if \<not> use_json then [PrintRecords (length data)] else []), Inl e)
              | Inr row \<Rightarrow>
                  (if use_json
                   then (out, Inr ((table_headers_val, (if totals then [] else data) @ [row], row),
                                   show_headers))
                   else (out @ [PrintRecords (length data),
                                PrintTable (if show_headers then Some table_headers_val else None)
                                  ((if totals then [] else data) @ [row])],
                         Inr ((table_headers_val, (if totals then [] else data) @ [row], row),
                              False)))))"
  by (cases hourly)
     (simp_all add: load_day_def init_totals_headers day_samples_def seed_time_def
        table_headers_val_def Let_def split: prod.splits sum.splits)

lemma load_day_finish:
  assumes "load_records hourly (day_samples server_conn zid day hourly) (seed_time hourly)
             (map (\<lambda>key. (key, add_value PowerMeter_new 0 (seed_time hourly))) headers) [] []
           = (out0, Inr (pm', data0))"
  shows "load_day pm_str server_conn zid day hourly totals use_json show_headers =
           (printed_val pm_str hourly totals use_json show_headers
              (day_samples server_conn zid day hourly),
            Inr ((table_headers_val,
                  data_val pm_str hourly totals (day_samples server_conn zid day hourly),
                  totals_val pm_str hourly (day_samples server_conn zid day hourly)),
                 use_json \<and> show_headers))"
proof -
  define res where "res = day_samples server_conn zid day hourly"
  note r = load_records_Inr [OF assms, folded res_def]
  have "\<forall>key\<in>set headers. map_of pm' key =
          Some (feed hourly key (add_value PowerMeter_new 0 (seed_time hourly)) res)"
    using r by (simp add: map_of_seeded)
  from totals_row_Inr [OF this, of pm_str "[CStr ''Totals'', CNone]"]
  have tr: "totals_row pm_str headers pm' [CStr ''Totals'', CNone] = Inr (totals_val pm_str hourly res)"
    by (simp add: totals_val_def)
  note lr = assms [folded res_def]
  show ?thesis
    unfolding load_day_start res_def [symmetric]
    using r by (simp add: lr tr data_val_def printed_val_def)
qed

lemma load_day_Inr:
  assumes "load_day pm_str server_conn zid day hourly totals use_json show_headers =
             (out, Inr ((th, data, trow), sh))"
  shows "th = table_headers_val \<and>
         trow = totals_val pm_str hourly (day_samples server_conn zid day hourly) \<and>
         data = data_val pm_str hourly totals (day_samples server_conn zid day hourly) \<and>
         sh = (use_json \<and> show_headers) \<and>
         out = printed_val pm_str hourly totals use_json show_headers
                 (day_samples server_conn zid day hourly) \<and>
         list_all (record_ok hourly) (day_samples server_conn zid day hourly)"
proof -
  from assms obtain out0 pm' data0 where
    lr: "load_records hourly (day_samples server_conn zid day hourly) (seed_time hourly)
             (map (\<lambda>key. (key, add_value PowerMeter_new 0 (seed_time hourly))) headers) [] []
           = (out0, Inr (pm', data0))"
    unfolding load_day_start by (auto split: prod.splits sum.splits)
  from load_day_finish [OF lr, of pm_str totals use_json show_headers] assms
    load_records_Inr [OF lr]
  show ?thesis by simp
qed

lemma load_day_total:
  assumes "list_all (record_ok hourly) (day_samples server_conn zid day hourly)"
  shows "load_day pm_str server_conn zid day hourly totals use_json show_headers =
           (printed_val pm_str hourly totals use_json show_headers
              (day_samples server_conn zid day hourly),
            Inr ((table_headers_val,
                  data_val pm_str hourly totals (day_samples server_conn zid day hourly),
                  totals_val pm_str hourly (day_samples server_conn zid day hourly)),
                 use_json \<and> show_headers))"
proof -
  have "\<forall>key\<in>set headers.
          map_of (map (\<lambda>key. (key, add_value PowerMeter_new 0 (seed_time hourly))) headers) key
            \<noteq> None"
    by (simp add: map_of_seeded)
  from load_records_total [OF assms this, of "seed_time hourly" "[]" "[]"]
  obtain out0 pm' data0 where
    "load_records hourly (day_samples server_conn zid day hourly) (seed_time hourly)
             (map (\<lambda>key. (key, add_value PowerMeter_new 0 (seed_time hourly))) headers) [] []
           = (out0, Inr (pm', data0))"
    by (metis prod.collapse)
  then show ?thesis by (rule load_day_finish)
qed

lemma rows_val_nth:
  "i < length res \<Longrightarrow>
     rows_val hourly prev res ! i =
       row_val hourly (if i = 0 then prev else time_val (res ! (i - 1))) (res ! i)"
proof (induction res arbitrary: prev i)
  case Nil
  then show ?case by simp
next
  case (Cons rec res)
  show ?case
  proof (cases i)
    case 0
    then show ?thesis by simp
  next
    case (Suc k)
    with Cons.prems have "k < length res" by simp
    from Cons.IH [OF this] Suc show ?thesis
      by (cases k) simp_all
  qed
qed

lemma row_val_cell:
  assumes "j < length headers"
  shows "row_val hourly prev rec ! (j + 2) =
           cell_val hourly (volts_val rec) (map_of rec (headers ! j))"
    and "row_val hourly prev rec ! Suc (Suc j) =
           cell_val hourly (volts_val rec) (map_of rec (headers ! j))"
  using assms by (simp_all add: row_val_def nth_append)

lemma row_val_duration:
  "row_val hourly prev rec ! 1 = CInt (time_val rec - prev)"
  "row_val hourly prev rec ! Suc 0 = CInt (time_val rec - prev)"
  by (simp_all add: row_val_def)

lemma data_val_row:
  "i < length res \<Longrightarrow>
     data_val pm_str hourly False res ! i =
       row_val hourly (if i = 0 then seed_time hourly else time_val (res ! (i - 1))) (res ! i)"
  by (simp add: data_val_def nth_append rows_val_nth)

lemma totals_val_cell:
  assumes "j < length headers"
  shows "totals_val pm_str hourly res ! (j + 2) =
           CStr (pm_str (feed hourly (headers ! j)
                           (add_value PowerMeter_new 0 (seed_time hourly)) res))"
    and "totals_val pm_str hourly res ! Suc (Suc j) =
           CStr (pm_str (feed hourly (headers ! j)
                           (add_value PowerMeter_new 0 (seed_time hourly)) res))"
  using assms by (simp_all add: totals_val_def)

lemma record_ok_time:
  "record_ok hourly rec \<Longrightarrow>
     \<exists>h m. field0 rec ''hr'' = PInt h \<and> field0 rec ''min'' = PInt m \<and>
           time_val rec = (h * 60 + m) * 60"
  by (auto simp add: record_ok_def is_int_iff time_val_def)

lemma record_ok_chan:
  "record_ok hourly rec \<Longrightarrow> key \<in> set headers \<Longrightarrow>
     chan_ok hourly (volts_val rec) (map_of rec key)"
  by (simp add: record_ok_def list_all_iff)

lemma normalize_rec_minute:
  "normalize False (- 60) (seed_totals (- 60)) rec_minute =
     Inr (row_minute, 0, totals_minute, [(''pect1'', PInt 3)])"
  by (simp add: normalize_def seed_totals_eq rec_minute_def row_minute_def totals_minute_def
        headers_def drop_duplicate_def pop_field_def py_add_def py_mul_def get_volts_def
        watts_of_def pm_add_value_def add_value_def PowerMeter_new_def py_int_fraction
        fmt02_def str_int_def str_nat.simps)

lemma show_sum_numeral:
  "show_sum \<lparr>pm_sum = 0, pm_last = t\<rparr> = ''0''"
  "show_sum \<lparr>pm_sum = 40, pm_last = t\<rparr> = ''40''"
  "show_sum \<lparr>pm_sum = 1800, pm_last = t\<rparr> = ''1800''"
  "show_sum \<lparr>pm_sum = 9000, pm_last = t\<rparr> = ''9000''"
  by (simp_all add: show_sum_def py_int_fraction str_int_def str_nat.simps)

lemma load_day_one_sample_hourly:
  "load_day show_sum one_sample ''12345678'' a_day True False False True =
     ([PrintRec [(''xyz'', PInt 7)], PrintRecords 1,
       PrintTable (Some table_headers_val) [row_half, trow_half]],
      Inr ((table_headers_val, [row_half, trow_half], trow_half), False))"
proof -
  have s: "map (\<lambda>key. (key, add_value PowerMeter_new 0 (seed_time True))) headers
             = seed_totals (- 3600)"
    by (simp add: seed_totals_eq seed_time_def)
  have d: "day_samples one_sample ''12345678'' a_day True = [rec_half]"
    by (simp add: day_samples_def one_sample_def)
  have t: "totals_row show_sum headers totals_half [CStr ''Totals'', CNone] = Inr trow_half"
    by (simp add: headers_def totals_half_def trow_half_def show_sum_numeral)
  show ?thesis
    unfolding load_day_start s d
    by (simp add: seed_time_def normalize_rec_half t)
qed

lemma load_day_one_sample_minute:
  "load_day show_sum one_sample ''12345678'' a_day False False False True =
     ([PrintRec [(''pect1'', PInt 3)], PrintRecords 1,
       PrintTable (Some table_headers_val) [row_minute, trow_minute]],
      Inr ((table_headers_val, [row_minute, trow_minute], trow_minute), False))"
proof -
  have s: "map (\<lambda>key. (key, add_value PowerMeter_new 0 (seed_time False))) headers
             = seed_totals (- 60)"
    by (simp add: seed_totals_eq seed_time_def)
  have d: "day_samples one_sample ''12345678'' a_day False = [rec_minute]"
    by (simp add: day_samples_def one_sample_def)
  have t: "totals_row show_sum headers totals_minute [CStr ''Totals'', CNone] = Inr trow_minute"
    by (simp add: headers_def totals_minute_def trow_minute_def show_sum_numeral)
  show ?thesis
    unfolding load_day_start s d
    by (simp add: seed_time_def normalize_rec_minute t)
qed

lemma map_of_known_fields:
  "map_of (known_fields rec) k = (if k \<in> recognized then map_of rec k else None)"
  unfolding known_fields_def by (induction rec) auto

lemma headers_recognized: "key \<in> set headers \<Longrightarrow> key \<in> recognized"
  by (simp add: recognized_def)

lemma literals_recognized:
  "''hr'' \<in> recognized" "''min'' \<in> recognized" "''dow'' \<in> recognized"
  "''yr'' \<in> recognized" "''mon'' \<in> recognized" "''dom'' \<in> recognized"
  "''v1'' \<in> recognized"
  by (simp_all add: recognized_def)

lemma field0_known:
  "k \<in> recognized \<Longrightarrow> field0 (known_fields rec) k = field0 rec k"
  by (simp add: field0_def map_of_known_fields)

lemma volts_val_known: "volts_val (known_fields rec) = volts_val rec"
  by (simp add: volts_val_def map_of_known_fields literals_recognized)

lemma time_val_known: "time_val (known_fields rec) = time_val rec"
  by (simp add: time_val_def field0_known literals_recognized)

lemma row_val_known: "row_val hourly prev (known_fields rec) = row_val hourly prev rec"
proof -
  have "map (\<lambda>key. cell_val hourly (volts_val rec) (map_of (known_fields rec) key)) headers
          = map (\<lambda>key. cell_val hourly (volts_val rec) (map_of rec key)) headers"
    by (intro map_cong) (simp_all add: map_of_known_fields headers_recognized)
  then show ?thesis
    by (simp add: row_val_def volts_val_known time_val_known field0_known literals_recognized)
qed

lemma rows_val_known:
  "rows_val hourly prev (map known_fields res) = rows_val hourly prev res"
  by (induction res arbitrary: prev) (simp_all add: row_val_known time_val_known)

lemma feed_known:
  "key \<in> set headers \<Longrightarrow> feed hourly key m (map known_fields res) = feed hourly key m res"
  by (induction res arbitrary: m)
     (simp_all add: volts_val_known time_val_known map_of_known_fields headers_recognized)

lemma totals_val_known:
  "totals_val pm_str hourly (map known_fields res) = totals_val pm_str hourly res"
  unfolding totals_val_def
  by (simp add: feed_known cong: map_cong)

lemma data_val_known:
  "data_val pm_str hourly totals (map known_fields res) = data_val pm_str hourly totals res"
  by (simp add: data_val_def rows_val_known totals_val_known)

lemma record_ok_known: "record_ok hourly (known_fields rec) = record_ok hourly rec"
proof -
  have "list_all (\<lambda>key. chan_ok hourly (volts_val rec) (map_of (known_fields rec) key)) headers
          = list_all (\<lambda>key. chan_ok hourly (volts_val rec) (map_of rec key)) headers"
    unfolding list_all_iff by (simp add: map_of_known_fields headers_recognized)
  then show ?thesis
    by (simp add: record_ok_def volts_val_known field0_known map_of_known_fields
          literals_recognized)
qed

lemma day_samples_strip:
  "day_samples (strip_unknown server_conn) zid day hourly
     = map known_fields (day_samples server_conn zid day hourly)"
  by (simp add: day_samples_def strip_unknown_def)

lemma consumed_recognized: "k \<in> consumed rec \<Longrightarrow> k \<in> recognized"
  by (auto simp add: consumed_def removed_first_def recognized_def split: if_splits)

lemma unknown_in_leftover:
  "p \<in> set rec \<Longrightarrow> fst p \<notin> recognized \<Longrightarrow> p \<in> set (leftover rec)"
  using consumed_recognized [of "fst p" rec] by (auto simp add: leftover_def)

lemma leftover_printed:
  "rec \<in> set res \<Longrightarrow> leftover rec \<noteq> [] \<Longrightarrow> PrintRec (leftover rec) \<in> set (diagnostics res)"
  by (auto simp add: diagnostics_def)

lemma update_new_key: "k \<notin> fst ` set al \<Longrightarrow> AList.update k v al = al @ [(k, v)]"
  by (induction al) auto

lemma json_row_distinct:
  assumes "distinct header" and "set header \<inter> fst ` set raw = {}"
    and "length header \<le> length totals"
  shows "json_row header totals raw =
           Inr (raw @ filter (\<lambda>p. truthy (snd p) \<and> fst p \<noteq> ''Time'') (zip header totals),
                drop (length header) totals)"
  using assms
proof (induction header arbitrary: totals raw)
  case Nil
  show ?case by simp
next
  case (Cons head header)
  from Cons.prems(3) obtain t ts where totals: "totals = t # ts" and len: "length header \<le> length ts"
    by (cases totals) auto
  have dist: "distinct header" and fresh: "head \<notin> set header" "head \<notin> fst ` set raw"
    and disj: "set header \<inter> fst ` set raw = {}"
    using Cons.prems(1,2) by auto
  show ?case
  proof (cases "\<not> truthy t \<or> head = ''Time''")
    case True
    with Cons.IH [OF dist disj len] show ?thesis
      by (auto simp add: totals)
  next
    case False
    have "set header \<inter> fst ` set (raw @ [(head, t)]) = {}"
      using disj fresh by auto
    from Cons.IH [OF dist this len] False fresh show ?thesis
      by (simp add: totals update_new_key)
  qed
qed

lemma json_row_report:
  "json_row table_headers_val (totals_val pm_str hourly res) [] =
     Inr (filter (\<lambda>p. truthy (snd p))
            (zip (drop 2 table_headers_val) (drop 2 (totals_val pm_str hourly res))), [])"
proof -
  define names where "names = drop 2 table_headers_val"
  define cells where "cells = drop 2 (totals_val pm_str hourly res)"
  have th: "table_headers_val = ''Time'' # ''Duration'' # names"
    by (simp add: names_def table_headers_val_def)
  have tv: "totals_val pm_str hourly res = CStr ''Totals'' # CNone # cells"
    by (simp add: cells_def totals_val_def)
  have d: "distinct names"
    by (simp add: names_def table_headers_val_def)
  have nt: "''Time'' \<notin> set names"
    by (simp add: names_def table_headers_val_def)
  have len: "length names = length cells"
    by (simp add: names_def cells_def table_headers_val_def totals_val_def headers_def)
  have "filter (\<lambda>p. truthy (snd p) \<and> fst p \<noteq> ''Time'') (zip names cells)
          = filter (\<lambda>p. truthy (snd p)) (zip names cells)"
    using nt by (intro filter_cong) (auto dest: set_zip_leftD)
  with json_row_distinct [of names "[]" cells] d len
  have "json_row names cells [] = Inr (filter (\<lambda>p. truthy (snd p)) (zip names cells), [])"
    by simp
  then show ?thesis
    unfolding names_def [symmetric] cells_def [symmetric] th tv by simp
qed

lemma zappi_step_json:
  assumes "o_use_json st"
  shows "zappi_step pm_str server_conn st sno vs =
     (case load_day pm_str server_conn sno (v_day vs) True True True True of
        (out, Inl e) \<Rightarrow> (out, Inl e)
      | (out, Inr ((header, data, totals), sh)) \<Rightarrow>
          (case json_row header totals [] of
             Inl e \<Rightarrow> (out, Inl e)
           | Inr (raw, totals') \<Rightarrow>
               (out, Inr (vs\<lparr>v_totals := OList totals',
                              v_jout := AList.update sno raw (v_jout vs),
                              v_show_headers := sh\<rparr>))))"
  using assms by (simp add: zappi_step_def Let_def split: prod.splits sum.splits)

lemma apply_opts_without_per_minute:
  assumes "o_day st = o_day st'" and "o_totals st = o_totals st'"
    and "o_use_json st = o_use_json st'"
  shows "o_day (apply_opts (filter (\<lambda>p. fst p \<noteq> ''--per-minute'') opts) st)
           = o_day (apply_opts opts st') \<and>
         o_totals (apply_opts (filter (\<lambda>p. fst p \<noteq> ''--per-minute'') opts) st)
           = o_totals (apply_opts opts st') \<and>
         o_use_json (apply_opts (filter (\<lambda>p. fst p \<noteq> ''--per-minute'') opts) st)
           = o_use_json (apply_opts opts st')"
  using assms
proof (induction opts arbitrary: st st')
  case Nil
  then show ?case by simp
next
  case (Cons p opts)
  obtain opt val where p: "p = (opt, val)" by (cases p)
  show ?case
  proof (cases "opt = ''--per-minute''")
    case True
    have "o_day st = o_day (st'\<lparr>o_hourly := False\<rparr>)"
      "o_totals st = o_totals (st'\<lparr>o_hourly := False\<rparr>)"
      "o_use_json st = o_use_json (st'\<lparr>o_hourly := False\<rparr>)"
      using Cons.prems by simp_all
    from Cons.IH [OF this] True show ?thesis by (simp add: p)
  next
    case False
    define f :: "options \<Rightarrow> options" where
      "f = (\<lambda>st. if opt = ''--totals'' then st\<lparr>o_totals := OBool True\<rparr>
        else if opt = ''--day'' then st\<lparr>o_day := (o_day st)\<lparr>tm_mday := PStr val\<rparr>\<rparr>
        else if opt = ''--month'' then st\<lparr>o_day := (o_day st)\<lparr>tm_mon := PStr val\<rparr>\<rparr>
        else if opt = ''--year'' then st\<lparr>o_day := (o_day st)\<lparr>tm_year := PStr val\<rparr>\<rparr>
        else if opt = ''--show-month'' then st\<lparr>o_show_month := True\<rparr>
        else if opt = ''--json'' then st\<lparr>o_use_json := True\<rparr>
        else st)"
    have step: "apply_opts (p # xs) s = apply_opts xs (f s)" for s xs
      using False by (simp add: p f_def)
    have l: "filter (\<lambda>p. fst p \<noteq> ''--per-minute'') (p # opts)
               = p # filter (\<lambda>p. fst p \<noteq> ''--per-minute'') opts"
      using False by (simp add: p)
    have "o_day (f st) = o_day (f st')" "o_totals (f st) = o_totals (f st')"
      "o_use_json (f st) = o_use_json (f st')"
      using Cons.prems by (simp_all add: f_def)
    from Cons.IH [OF this] show ?thesis
      unfolding l step .
  qed
qed

lemma zappi_loop_json:
  assumes "o_use_json st" and "o_use_json st2"
  shows "zappi_loop pm_str server_conn st snos vs out =
         zappi_loop pm_str server_conn st2 snos vs out"
proof (induction snos arbitrary: vs out)
  case Nil
  show ?case by simp
next
  case (Cons sno snos)
  have "zappi_step pm_str server_conn st sno vs = zappi_step pm_str server_conn st2 sno vs"
    by (simp only: zappi_step_json [OF assms(1)] zappi_step_json [OF assms(2)])
  with Cons.IH show ?case by (simp split: prod.splits sum.splits)
qed

lemma totals_val_not_Nil: "totals_val pm_str hourly res \<noteq> []"
  by (simp add: totals_val_def)

lemma month_loop_step:
  assumes "list_all (record_ok hourly)
             (day_samples server_conn sno ((v_day vs)\<lparr>tm_mday := PInt d\<rparr>) hourly)"
  shows "month_loop pm_str server_conn sno hourly False (d # ds) vs all_data out =
           month_loop pm_str server_conn sno hourly False ds
             (vs\<lparr>v_day := (v_day vs)\<lparr>tm_mday := PInt d\<rparr>,
                 v_totals := OList (totals_val pm_str hourly
                   (day_samples server_conn sno ((v_day vs)\<lparr>tm_mday := PInt d\<rparr>) hourly)),
                 v_headers := Some table_headers_val, v_show_headers := False\<rparr>)
             (all_data @ [totals_val pm_str hourly
                   (day_samples server_conn sno ((v_day vs)\<lparr>tm_mday := PInt d\<rparr>) hourly)])
             (out @ PrintDay d #
                printed_val pm_str hourly (py_truth (v_totals vs)) False (v_show_headers vs)
                  (day_samples server_conn sno ((v_day vs)\<lparr>tm_mday := PInt d\<rparr>) hourly))"
  by (simp add: load_day_total [OF assms] Let_def)

lemma month_loop_later:
  assumes "py_truth (v_totals vs)" and "\<not> v_show_headers vs"
    and "\<forall>d\<in>set ds. list_all (record_ok hourly)
           (day_samples server_conn sno ((v_day vs)\<lparr>tm_mday := PInt d\<rparr>) hourly)"
  shows "\<exists>vs'. month_loop pm_str server_conn sno hourly False ds vs all_data out =
           (out @ concat (map (\<lambda>d. PrintDay d #
                     printed_val pm_str hourly True False False
                       (day_samples server_conn sno ((v_day vs)\<lparr>tm_mday := PInt d\<rparr>) hourly)) ds),
            Inr (vs', all_data @ map (\<lambda>d. totals_val pm_str hourly
                       (day_samples server_conn sno ((v_day vs)\<lparr>tm_mday := PInt d\<rparr>) hourly)) ds))
         \<and> v_headers vs' = (if ds = [] then v_headers vs else Some table_headers_val)"
  using assms
proof (induction ds arbitrary: vs all_data out)
  case Nil
  show ?case by simp
next
  case (Cons d ds)
  define res where "res = day_samples server_conn sno ((v_day vs)\<lparr>tm_mday := PInt d\<rparr>) hourly"
  define vs1 where "vs1 = vs\<lparr>v_day := (v_day vs)\<lparr>tm_mday := PInt d\<rparr>,
                 v_totals := OList (totals_val pm_str hourly res),
                 v_headers := Some table_headers_val, v_show_headers := False\<rparr>"
  have ok: "list_all (record_ok hourly) res"
    using Cons.prems(3) by (simp add: res_def)
  have day: "(v_day vs1)\<lparr>tm_mday := PInt x\<rparr> = (v_day vs)\<lparr>tm_mday := PInt x\<rparr>" for x
    by (simp add: vs1_def)
  have "py_truth (v_totals vs1)" "\<not> v_show_headers vs1"
    by (simp_all add: vs1_def totals_val_not_Nil)
  moreover have "\<forall>x\<in>set ds. list_all (record_ok hourly)
           (day_samples server_conn sno ((v_day vs1)\<lparr>tm_mday := PInt x\<rparr>) hourly)"
    using Cons.prems(3) by (simp add: day)
  ultimately obtain vs' where
    ih: "month_loop pm_str server_conn sno hourly False ds vs1 (all_data @ [totals_val pm_str hourly res])
           (out @ PrintDay d # printed_val pm_str hourly (py_truth (v_totals vs)) False
                                 (v_show_headers vs) res) =
           ((out @ PrintDay d # printed_val pm_str hourly (py_truth (v_totals vs)) False
                                  (v_show_headers vs) res)
              @ concat (map (\<lambda>d. PrintDay d #
                     printed_val pm_str hourly True False False
                       (day_samples server_conn sno ((v_day vs1)\<lparr>tm_mday := PInt d\<rparr>) hourly)) ds),
            Inr (vs', (all_data @ [totals_val pm_str hourly res]) @ map (\<lambda>d. totals_val pm_str hourly
                       (day_samples server_conn sno ((v_day vs1)\<lparr>tm_mday := PInt d\<rparr>) hourly)) ds))"
    and hs: "v_headers vs' = (if ds = [] then v_headers vs1 else Some table_headers_val)"
    using Cons.IH [of vs1] by blast
  have "month_loop pm_str server_conn sno hourly False (d # ds) vs all_data out =
           (out @ concat (map (\<lambda>d. PrintDay d #
                     printed_val pm_str hourly True False False
                       (day_samples server_conn sno ((v_day vs)\<lparr>tm_mday := PInt d\<rparr>) hourly)) (d # ds)),
            Inr (vs', all_data @ map (\<lambda>d. totals_val pm_str hourly
                       (day_samples server_conn sno ((v_day vs)\<lparr>tm_mday := PInt d\<rparr>) hourly)) (d # ds)))"
    unfolding month_loop_step [OF ok [unfolded res_def]] res_def [symmetric] vs1_def [symmetric] ih
    using Cons.prems(1,2) by (simp add: day res_def)
  moreover have "v_headers vs' = Some table_headers_val"
    using hs by (simp add: vs1_def)
  ultimately show ?case by auto
qed

lemma day_samples_one_sample: "day_samples one_sample sno day True = [rec_half]"
  by (simp add: day_samples_def one_sample_def)

lemma leftover_rec_half: "leftover rec_half = [(''xyz'', PInt 7)]"
  using normalize_values(3) [OF normalize_rec_half] by simp

lemma row_val_rec_half: "row_val True (- 3600) rec_half = row_half"
  using normalize_values(2) [OF normalize_rec_half] by simp

lemma record_ok_rec_half: "record_ok True rec_half"
  using normalize_values(4) [OF normalize_rec_half] .

lemma totals_val_rec_half:
  "totals_val pm_str True [rec_half] =
     CStr ''Totals'' # CNone # map (\<lambda>p. CStr (pm_str (snd p))) totals_half"
proof -
  have t: "time_val rec_half = 0" and v: "volts_val rec_half = 240"
    by (simp_all add: time_val_def field0_def volts_val_def rec_half_def)
  have m: "map (\<lambda>key. map_of rec_half key) headers =
             [Some (PInt 1800), None, None, Some (PInt 9000), None, None, None, None]"
    by (simp add: headers_def rec_half_def)
  have "map (\<lambda>key. feed True key (add_value PowerMeter_new 0 (seed_time True)) [rec_half]) headers
          = map ((\<lambda>x. add_value (add_value PowerMeter_new 0 (- 3600)) (watts_val True 240 x) 0)
                   \<circ> (\<lambda>key. map_of rec_half key)) headers"
    by (simp add: t v seed_time_def)
  also have "\<dots> = map snd totals_half"
    unfolding map_map [symmetric] m
    by (simp add: totals_half_def watts_val_def add_value_def PowerMeter_new_def)
  finally have "map (\<lambda>m. CStr (pm_str m))
                  (map (\<lambda>key. feed True key (add_value PowerMeter_new 0 (seed_time True))
                                 [rec_half]) headers)
                  = map (\<lambda>m. CStr (pm_str m)) (map snd totals_half)"
    by (rule arg_cong)
  then show ?thesis by (simp add: totals_val_def comp_def)
qed

lemma trow_half_eq: "totals_val show_sum True [rec_half] = trow_half"
  by (simp add: totals_val_rec_half totals_half_def trow_half_def show_sum_numeral)

lemma printed_later_rec_half:
  "printed_val show_sum True True False False [rec_half] =
     [PrintRec [(''xyz'', PInt 7)], PrintRecords 1, PrintTable None [trow_half]]"
  by (simp add: printed_val_def diagnostics_def leftover_rec_half data_val_def trow_half_eq)

lemma printed_first_rec_half:
  "printed_val show_sum True False False True [rec_half] =
     [PrintRec [(''xyz'', PInt 7)], PrintRecords 1,
      PrintTable (Some table_headers_val) [row_half, trow_half]]"
  by (simp add: printed_val_def diagnostics_def leftover_rec_half data_val_def trow_half_eq
        seed_time_def row_val_rec_half)

lemma trow_nonzero_eq: "totals_val show_nonzero True [rec_half] = trow_nonzero"
  by (simp add: totals_val_rec_half totals_half_def trow_nonzero_def show_nonzero_def
        show_sum_numeral)

lemma load_day_json_rec_half:
  "load_day pm_str one_sample ''12345678'' day True True True True =
     ([PrintRec [(''xyz'', PInt 7)]],
      Inr ((table_headers_val, [totals_val pm_str True [rec_half]],
            totals_val pm_str True [rec_half]), True))"
proof -
  have "list_all (record_ok True) (day_samples one_sample ''12345678'' day True)"
    by (simp add: day_samples_one_sample record_ok_rec_half)
  from load_day_total [OF this, of pm_str True True True] show ?thesis
    by (simp add: day_samples_one_sample printed_val_def diagnostics_def leftover_rec_half
          data_val_def)
qed

lemma zappi_step_json_nonzero:
  "zappi_step show_nonzero one_sample json_opts ''12345678'' (start_vars a_day) =
     ([PrintRec [(''xyz'', PInt 7)]], Inr json_vars)"
proof -
  have j: "o_use_json json_opts" by (simp add: json_opts_def)
  have r: "json_row table_headers_val trow_nonzero [] =
             Inr ([(''Imported'', CStr ''1800''), (''Generated'', CStr ''9000'')], [])"
    unfolding trow_nonzero_eq [symmetric] json_row_report
    by (simp add: trow_nonzero_eq trow_nonzero_def table_headers_val_def)
  show ?thesis
    unfolding zappi_step_json [OF j]
    by (simp add: start_vars_def load_day_json_rec_half trow_nonzero_eq r json_vars_def)
qed

lemma main_json_rec_half:
  "main show_sum (2024, 3, 4) one_sample [(''--json'', '''')] =
     ([PrintRec [(''xyz'', PInt 7)], PrintJson [(''12345678'', json_half)]], None)"
proof -
  have r: "json_row table_headers_val trow_half [] = Inr (json_half, [])"
    unfolding trow_half_eq [symmetric] json_row_report
    by (simp add: trow_half_eq trow_half_def table_headers_val_def json_half_def)
  have st: "apply_opts [(''--json'', '''')]
              \<lparr>o_hourly = True, o_totals = OBool False, o_use_json = False,
                 o_show_month = False,
                 o_day = \<lparr>tm_year = PInt 2024, tm_mon = PInt 3, tm_mday = PInt 4\<rparr>\<rparr>
            = \<lparr>o_hourly = True, o_totals = OBool False, o_use_json = True,
                 o_show_month = False,
                 o_day = \<lparr>tm_year = PInt 2024, tm_mon = PInt 3, tm_mday = PInt 4\<rparr>\<rparr>"
    by simp
  have z: "zappi_list one_sample = [''12345678'']" by (simp add: one_sample_def)
  show ?thesis
    unfolding main_def Let_def prod.case st z
    by (simp add: zappi_step_json load_day_json_rec_half trow_half_eq r)
qed

lemma channels_cong:
  assumes "\<forall>k\<in>set keys. map_of rec k = map_of rec2 k"
  shows "map_sum id (\<lambda>(r, row', pm'). (row', pm')) (channels hourly volts st keys rec row pm) =
         map_sum id (\<lambda>(r, row', pm'). (row', pm')) (channels hourly volts st keys rec2 row pm)"
  using assms
proof (induction keys arbitrary: rec rec2 row pm)
  case Nil
  show ?case by simp
next
  case (Cons key keys)
  have here: "map_of rec2 key = map_of rec key"
    and later: "\<forall>k\<in>set keys. map_of rec k = map_of rec2 k"
    and del: "\<forall>k\<in>set keys. map_of (AList.delete key rec) k = map_of (AList.delete key rec2) k"
    using Cons.prems by (simp_all add: delete_conv')
  show ?case
  proof (cases "map_of rec key")
    case None
    with here Cons.IH [OF later] show ?thesis
      by (simp split: sum.splits)
  next
    case (Some val)
    with here Cons.IH [OF del] show ?thesis
      by (simp split: sum.splits)
  qed
qed

lemma finish_cong:
  assumes "map_sum id (\<lambda>(r, row', pm'). (row', pm')) c1 =
           map_sum id (\<lambda>(r, row', pm'). (row', pm')) c2"
  shows "map_sum id (\<lambda>(row, st, pm', rest). (row, st, pm'))
           (case c1 of Inl e \<Rightarrow> Inl e | Inr (rec7, row, pm') \<Rightarrow> Inr (row, t, pm', rec7)) =
         map_sum id (\<lambda>(row, st, pm', rest). (row, st, pm'))
           (case c2 of Inl e \<Rightarrow> Inl e | Inr (rec7, row, pm') \<Rightarrow> Inr (row, t, pm', rec7))"
  using assms by (cases c1; cases c2) auto

lemma normalize_known:
  "map_sum id (\<lambda>(row, st, pm', rest). (row, st, pm'))
     (normalize hourly prev pm (known_fields rec)) =
   map_sum id (\<lambda>(row, st, pm', rest). (row, st, pm')) (normalize hourly prev pm rec)"
proof -
  define kn where "kn = known_fields rec"
  have f: "field0 kn ''hr'' = field0 rec ''hr''" "field0 kn ''min'' = field0 rec ''min''"
    by (simp_all add: kn_def field0_known literals_recognized)
  have c: "map_of kn ''dow'' = map_of rec ''dow''" "map_of kn ''yr'' = map_of rec ''yr''"
    "map_of kn ''mon'' = map_of rec ''mon''" "map_of kn ''dom'' = map_of rec ''dom''"
    by (simp_all add: kn_def map_of_known_fields literals_recognized)
  have "map_of kn ''v1'' = map_of rec ''v1''"
    by (simp add: kn_def map_of_known_fields literals_recognized)
  then have v: "get_volts kn = get_volts rec" by (rule get_volts_cong)
  have ch: "map_sum id (\<lambda>(r, row', pm'). (row', pm'))
              (channels hourly volts st headers
                 (filter (\<lambda>p. fst p \<notin> removed_first kn) kn) row pm) =
            map_sum id (\<lambda>(r, row', pm'). (row', pm'))
              (channels hourly volts st headers
                 (filter (\<lambda>p. fst p \<notin> removed_first rec) rec) row pm)" for volts st row
    by (rule channels_cong)
       (simp add: map_of_before_channels kn_def map_of_known_fields headers_recognized)
  show ?thesis
  proof (cases "py_add (py_mul (field0 rec ''hr'') 60) (field0 rec ''min'')")
    case (Inl e)
    then show ?thesis
      unfolding kn_def [symmetric] normalize_alt f c v by simp
  next
    case hm: (Inr hm)
    show ?thesis
    proof (cases "map_of rec ''dow'' = None \<or> map_of rec ''yr'' = None \<or>
                  map_of rec ''mon'' = None \<or> map_of rec ''dom'' = None")
      case True
      then show ?thesis
        unfolding kn_def [symmetric] normalize_alt f c v hm by auto
    next
      case False
      then have cal: "map_of rec ''dow'' \<noteq> None" "map_of rec ''yr'' \<noteq> None"
        "map_of rec ''mon'' \<noteq> None" "map_of rec ''dom'' \<noteq> None"
        by simp_all
      show ?thesis
      proof (cases "get_volts rec")
        case (Inl e)
        then show ?thesis
          unfolding kn_def [symmetric] normalize_alt f c v hm by (simp add: cal)
      next
        case volts: (Inr volts)
        show ?thesis
        proof (cases "py_mul hm 60")
          case (PStr s)
          then show ?thesis
            unfolding kn_def [symmetric] normalize_alt f c v hm volts by (simp add: cal)
        next
          case (PInt st)
          have n: "normalize hourly prev pm r =
                (case channels hourly volts st headers
                        (filter (\<lambda>p. fst p \<notin> removed_first r) r)
                        [CStr (fmt02 (field0 rec ''hr'') @ '':'' @ fmt02 (field0 rec ''min'')),
                         CInt (st - prev)] pm of
                   Inl e \<Rightarrow> Inl e
                 | Inr (rec7, row, pm') \<Rightarrow> Inr (row, st, pm', rec7))"
            if "r = kn \<or> r = rec" for r
            using that PInt
            unfolding normalize_alt by (auto simp add: f c v hm volts cal)
          show ?thesis
            unfolding kn_def [symmetric] n [of kn, simplified] n [of rec, simplified]
            by (rule finish_cong [OF ch])
        qed
      qed
    qed
  qed
qed

lemma load_records_known:
  "snd (load_records hourly (map known_fields res) prev pm data out1) =
   snd (load_records hourly res prev pm data out2)"
proof (induction res arbitrary: prev pm data out1 out2)
  case Nil
  show ?case by simp
next
  case (Cons rec res)
  note k = normalize_known [of hourly prev pm rec]
  show ?case
  proof (cases "normalize hourly prev pm rec")
    case (Inl e)
    with k have "normalize hourly prev pm (known_fields rec) = Inl e"
      by (cases "normalize hourly prev pm (known_fields rec)") auto
    with Inl show ?thesis by simp
  next
    case (Inr r)
    obtain row st pm1 rest where r: "r = (row, st, pm1, rest)" by (cases r)
    with k Inr obtain rest' where
      "normalize hourly prev pm (known_fields rec) = Inr (row, st, pm1, rest')"
      by (cases "normalize hourly prev pm (known_fields rec)") auto
    with Inr r Cons.IH show ?thesis by simp
  qed
qed

lemma load_day_result:
  "snd (load_day pm_str server_conn zid day hourly totals use_json show_headers) =
     (case snd (load_records hourly (day_samples server_conn zid day hourly) (seed_time hourly)
             (map (\<lambda>key. (key, add_value PowerMeter_new 0 (seed_time hourly))) headers) [] []) of
        Inl e \<Rightarrow> Inl e
      | Inr (pm', data) \<Rightarrow>
          (case totals_row pm_str headers pm' [CStr ''Totals'', CNone] of
             Inl e \<Rightarrow> Inl e
           | Inr row \<Rightarrow>
               Inr ((table_headers_val, (if totals then [] else data) @ [row], row),
                    use_json \<and> show_headers)))"
  unfolding load_day_start by (simp split: prod.splits sum.splits)

lemma load_day_known:
  "snd (load_day pm_str (strip_unknown server_conn) zid day hourly totals use_json show_headers)
     = snd (load_day pm_str server_conn zid day hourly totals use_json show_headers)"
  unfolding load_day_result day_samples_strip load_records_known [of _ _ _ _ _ _ "[]"] ..

lemma normalize_fails:
  assumes "\<not> record_ok hourly rec"
  shows "\<exists>e. normalize hourly prev pm rec = Inl e"
proof (cases "normalize hourly prev pm rec")
  case (Inl e)
  then show ?thesis by blast
next
  case (Inr r)
  obtain row st pm' rest where "r = (row, st, pm', rest)" by (cases r)
  with Inr normalize_values(4) [of hourly prev pm rec row st pm' rest] assms
  show ?thesis by simp
qed

lemma load_records_printed:
  assumes "\<forall>key\<in>set headers. map_of pm key \<noteq> None"
  shows "fst (load_records hourly res prev pm data out) =
           out @ diagnostics (takeWhile (record_ok hourly) res)"
  using assms
proof (induction res arbitrary: prev pm data out)
  case Nil
  show ?case by (simp add: diagnostics_def)
next
  case (Cons rec res)
  show ?case
  proof (cases "record_ok hourly rec")
    case True
    from normalize_total [OF True Cons.prems] obtain row st pm1 rest where
      n: "normalize hourly prev pm rec = Inr (row, st, pm1, rest)"
      by (metis prod_cases4)
    note v = normalize_values [OF n]
    from Cons.IH [OF normalize_keeps_meters [OF n]] n v True show ?thesis
      by (simp add: diagnostics_def)
  next
    case False
    from normalize_fails [OF this] obtain e where "normalize hourly prev pm rec = Inl e"
      by blast
    with False show ?thesis by (simp add: diagnostics_def)
  qed
qed

lemma load_day_printed:
  "\<exists>more. fst (load_day pm_str server_conn zid day hourly totals use_json show_headers) =
      diagnostics (takeWhile (record_ok hourly) (day_samples server_conn zid day hourly)) @ more"
proof -
  have "\<forall>key\<in>set headers.
          map_of (map (\<lambda>key. (key, add_value PowerMeter_new 0 (seed_time hourly))) headers) key
            \<noteq> None"
    by (simp add: map_of_seeded)
  from load_records_printed [OF this, of hourly "day_samples server_conn zid day hourly"
         "seed_time hourly" "[]" "[]"]
  show ?thesis
    unfolding load_day_start by (auto split: prod.splits sum.splits)
qed

lemma load_day_returns_iff:
  "(\<exists>x. snd (load_day pm_str server_conn zid day hourly totals use_json show_headers) = Inr x)
     \<longleftrightarrow> list_all (record_ok hourly) (day_samples server_conn zid day hourly)"
proof
  assume "\<exists>x. snd (load_day pm_str server_conn zid day hourly totals use_json show_headers) = Inr x"
  then obtain out th data trow sh where
    "load_day pm_str server_conn zid day hourly totals use_json show_headers =
       (out, Inr ((th, data, trow), sh))"
    by (metis prod.collapse)
  from load_day_Inr [OF this]
  show "list_all (record_ok hourly) (day_samples server_conn zid day hourly)" by simp
next
  assume "list_all (record_ok hourly) (day_samples server_conn zid day hourly)"
  from load_day_total [OF this, of pm_str totals use_json show_headers]
  show "\<exists>x. snd (load_day pm_str server_conn zid day hourly totals use_json show_headers) = Inr x"
    by simp
qed

lemma not_consumed_in_leftover:
  "p \<in> set rec \<Longrightarrow> fst p \<notin> consumed rec \<Longrightarrow> p \<in> set (leftover rec)"
  by (simp add: leftover_def)

lemma normalize_rec_late:
  "normalize True (- 3600) (seed_totals (- 3600)) rec_late =
     Inr (row_late, 18000, totals_late, [])"
  by (simp add: normalize_def seed_totals_eq rec_late_def row_late_def totals_late_def
        headers_def drop_duplicate_def pop_field_def py_add_def py_mul_def get_volts_def
        watts_of_def pm_add_value_def add_value_def PowerMeter_new_def py_int_fraction
        fmt02_def str_int_def str_nat.simps)

lemma show_sum_late: "show_sum \<lparr>pm_sum = 21600, pm_last = t\<rparr> = ''21600''"
  by (simp add: show_sum_def py_int_fraction str_int_def str_nat.simps)

lemma load_day_late_sample:
  "load_day show_sum late_sample ''12345678'' a_day True False False True =
     ([PrintRecords 1, PrintTable (Some table_headers_val) [row_late, trow_late]],
      Inr ((table_headers_val, [row_late, trow_late], trow_late), False))"
proof -
  have s: "map (\<lambda>key. (key, add_value PowerMeter_new 0 (seed_time True))) headers
             = seed_totals (- 3600)"
    by (simp add: seed_totals_eq seed_time_def)
  have d: "day_samples late_sample ''12345678'' a_day True = [rec_late]"
    by (simp add: day_samples_def late_sample_def)
  have t: "totals_row show_sum headers totals_late [CStr ''Totals'', CNone] = Inr trow_late"
    by (simp add: headers_def totals_late_def trow_late_def show_sum_numeral show_sum_late)
  show ?thesis
    unfolding load_day_start s d
    by (simp add: seed_time_def normalize_rec_late t)
qed

lemma normalize_rec_bad:
  "normalize True (- 3600) (seed_totals (- 3600)) rec_bad = Inl TypeError"
  by (simp add: normalize_def seed_totals_eq rec_bad_def
        headers_def drop_duplicate_def pop_field_def py_add_def py_mul_def get_volts_def
        watts_of_def pm_add_value_def add_value_def PowerMeter_new_def py_int_fraction
        fmt02_def str_int_def str_nat.simps)

lemma load_day_bad_sample:
  "load_day show_sum bad_sample ''12345678'' a_day True False False True = ([], Inl TypeError)"
proof -
  have s: "map (\<lambda>key. (key, add_value PowerMeter_new 0 (seed_time True))) headers
             = seed_totals (- 3600)"
    by (simp add: seed_totals_eq seed_time_def)
  have d: "day_samples bad_sample ''12345678'' a_day True = [rec_bad, rec_half]"
    by (simp add: day_samples_def bad_sample_def)
  show ?thesis
    unfolding load_day_start s d
    by (simp add: seed_time_def normalize_rec_bad)
qed

lemma month_one_sample:
  "fst (zappi_step show_sum one_sample month_opts ''12345678'' (start_vars (o_day month_opts))) =
     [PrintDay 1, PrintRec [(''xyz'', PInt 7)], PrintRecords 1,
      PrintTable (Some table_headers_val) [row_half, trow_half],
      PrintDay 2, PrintRec [(''xyz'', PInt 7)], PrintRecords 1, PrintTable None [trow_half],
      PrintTable (Some table_headers_val) [trow_half, trow_half]]"
proof -
  have u: "[1..2] = [1, 2::int]"
    by (simp add: upto_rec1)
  have ok: "list_all (record_ok True) (day_samples one_sample ''12345678'' day True)" for day
    by (simp add: day_samples_one_sample record_ok_rec_half)
  show ?thesis
    by (simp add: zappi_step_def month_range_def Let_def month_opts_def start_vars_def u
          load_day_total [OF ok] day_samples_one_sample printed_first_rec_half
          printed_later_rec_half trow_half_eq trow_half_def)
qed

section \<open>The claims\<close>

text \<open>
  Claim C1, as amended. For a record that \<^verbatim>\<open>load_day\<close> processes without raising and
  for the channel key at position \<open>i\<close> of \<^verbatim>\<open>headers\<close>: when the key is in the record,
  its value is an int \<open>v\<close>, the watts are \<open>v / 3600\<close> (hourly) or \<open>v / volts * 4\<close>
  (per minute, \<open>volts\<close> being \<^verbatim>\<open>v1\<close> divided by 10 when present and 1 otherwise), the
  accumulator of the channel is updated with these watts, and the row holds the watts
  truncated toward zero by \<^verbatim>\<open>int\<close>; when the key is absent, the accumulator is updated
  with 0 watts and the row holds \<^verbatim>\<open>None\<close>.
\<close>

theorem channel_row_value_and_watts:
  assumes "normalize hourly prev pm rec = Inr (row, st, pm', rest)"
    and "i < length headers"
  shows "case map_of rec (headers ! i) of
           None \<Rightarrow>
             row ! (i + 2) = CNone \<and>
             (\<exists>m. map_of pm (headers ! i) = Some m \<and>
                  map_of pm' (headers ! i) = Some (add_value m 0 st))
         | Some val \<Rightarrow>
             (\<exists>v m. val = PInt v \<and> map_of pm (headers ! i) = Some m \<and>
                (let volts = (case map_of rec ''v1'' of Some (PInt x) \<Rightarrow> of_int x / 10 | _ \<Rightarrow> 1);
                     watts = (if hourly then of_int v / 3600 else of_int v / volts * 4)
                 in row ! (i + 2) = CInt (py_int watts) \<and>
                    map_of pm' (headers ! i) = Some (add_value m watts st)))"
proof -
  define key where "key = headers ! i"
  have key: "key \<in> set headers" using assms(2) by (simp add: key_def)
  note cell = normalize_row_nth [OF assms, folded key_def]
  from normalize_meter [OF assms(1) key] obtain m where
    m: "map_of pm key = Some m"
       "map_of pm' key = Some (add_value m (watts_val hourly (volts_val rec) (map_of rec key)) st)"
    by blast
  note ok = normalize_chan_ok [OF assms(1) key]
  show ?thesis
  proof (cases "map_of rec key")
    case None
    with cell m show ?thesis
      by (simp add: key_def [symmetric] cell_val_def watts_val_def)
  next
    case (Some val)
    with ok obtain v where v: "val = PInt v"
      by (cases val) (simp_all add: chan_ok_def)
    from Some v cell m show ?thesis
      by (simp add: key_def [symmetric] cell_val_def watts_val_def volts_val_def Let_def)
  qed
qed

theorem channel_row_value_and_watts_witness:
  "normalize True (- 3600) (seed_totals (- 3600)) rec_half =
     Inr (row_half, 0, totals_half, [(''xyz'', PInt 7)]) \<and>
   0 < length headers \<and>
   row_half ! (0 + 2) = CInt (py_int (1800 / 3600)) \<and>
   map_of totals_half ''imp''
     = Some (add_value (add_value PowerMeter_new 0 (- 3600)) (1800 / 3600) 0)"
proof -
  have l: "0 < length headers" and k: "headers ! 0 = ''imp''"
    by (simp_all add: headers_def)
  have r: "map_of rec_half ''imp'' = Some (PInt 1800)"
    "map_of rec_half ''v1'' = Some (PInt 2400)"
    by (simp_all add: rec_half_def)
  have s: "map_of (seed_totals (- 3600)) ''imp'' = Some (add_value PowerMeter_new 0 (- 3600))"
    by (simp add: seed_totals_eq headers_def)
  from channel_row_value_and_watts [OF normalize_rec_half l]
  have "row_half ! (0 + 2) = CInt (py_int (1800 / 3600)) \<and>
        map_of totals_half ''imp''
          = Some (add_value (add_value PowerMeter_new 0 (- 3600)) (1800 / 3600) 0)"
    unfolding k r s by (simp add: Let_def)
  with normalize_rec_half l show ?thesis by blast
qed

text \<open>
  Claim C1 as stated fails: the row value is not the watts. For the hourly sample with
  \<^verbatim>\<open>imp\<close> = 1800 the watts are 1800 / 3600 = 1/2 (the accumulator gets 1/2 for 3600
  seconds, a sum of 1800), and the row holds the int 0.
\<close>

theorem row_value_is_not_watts:
  "normalize True (- 3600) (seed_totals (- 3600)) rec_half =
     Inr (row_half, 0, totals_half, [(''xyz'', PInt 7)])
   \<and> map_of rec_half ''imp'' = Some (PInt 1800)
   \<and> watts_of True (2400 / 10) (PInt 1800) = Inr (1 / 2)
   \<and> row_half ! 2 = CInt 0
   \<and> (of_int 0 :: rat) \<noteq> 1 / 2"
  using normalize_rec_half by (simp add: rec_half_def watts_of_def row_half_def)

text \<open>
  Claim C2. When the sample source yields no record for the day, \<^verbatim>\<open>load_day\<close> returns
  (it does not raise) a table of exactly one row, the totals row. Every channel cell of
  that row is the rendering of an accumulator that holds only the seed, and the total
  of that accumulator is zero. The accumulator is the one modelled from the spec.
\<close>

theorem load_day_no_records:
  assumes "(if hourly then get_hour_data server_conn zid day
            else get_minute_data server_conn zid day) = []"
  shows "let z = add_value PowerMeter_new 0 (if hourly then - 3600 else - 60);
             row = CStr ''Totals'' # CNone # map (\<lambda>key. CStr (pm_str z)) headers
         in snd (load_day pm_str server_conn zid day hourly totals use_json show_headers) =
              Inr (([''Time'', ''Duration'', ''Imported'', ''Exported'', ''Generated Negative'',
                     ''Generated'', ''Phase 1 diverted'', ''Phase 2 diverted'',
                     ''Phase 3 diverted'', ''Zappi imported''], [row], row),
                   use_json \<and> show_headers)
            \<and> pm_sum z = 0"
proof (cases hourly)
  case True
  with assms have "get_hour_data server_conn zid day = []" by simp
  with True show ?thesis
    by (simp add: load_day_def init_totals_headers totals_row_seeded add_value_def
          PowerMeter_new_def Let_def)
next
  case False
  with assms have "get_minute_data server_conn zid day = []" by simp
  with False show ?thesis
    by (simp add: load_day_def init_totals_headers totals_row_seeded add_value_def
          PowerMeter_new_def Let_def)
qed

theorem load_day_no_records_witness:
  "snd (load_day show_sum no_data ''12345678'' a_day True False False True) =
     Inr (([''Time'', ''Duration'', ''Imported'', ''Exported'', ''Generated Negative'',
            ''Generated'', ''Phase 1 diverted'', ''Phase 2 diverted'',
            ''Phase 3 diverted'', ''Zappi imported''],
           [[CStr ''Totals'', CNone, CStr ''0'', CStr ''0'', CStr ''0'', CStr ''0'', CStr ''0'',
             CStr ''0'', CStr ''0'', CStr ''0'']],
           [CStr ''Totals'', CNone, CStr ''0'', CStr ''0'', CStr ''0'', CStr ''0'', CStr ''0'',
             CStr ''0'', CStr ''0'', CStr ''0'']),
          False)"
proof -
  have h: "(if True then get_hour_data no_data ''12345678'' a_day
            else get_minute_data no_data ''12345678'' a_day) = []"
    by (simp add: no_data_def)
  have s: "show_sum (add_value PowerMeter_new 0 (- 3600)) = ''0''"
    by (simp add: show_sum_def add_value_def PowerMeter_new_def py_int_def str_int_def
          str_nat.simps)
  show ?thesis
    using load_day_no_records [OF h, of show_sum False False True]
    by (simp add: Let_def headers_def s)
qed

text \<open>
  Claim C10. With \<^verbatim>\<open>--day\<close> and \<^verbatim>\<open>--show-month\<close> on the command line the day of the
  month is a str, and the month loop of the first device raises TypeError on
  \<^verbatim>\<open>day.tm_mday + 1\<close> before anything is printed. The month loop is reached when
  \<^verbatim>\<open>--json\<close> is not given (the JSON branch comes first) and a device is listed.
\<close>

theorem day_option_month_TypeError:
  assumes "''--day'' \<in> fst ` set opts"
    and "''--show-month'' \<in> fst ` set opts"
    and "''--json'' \<notin> fst ` set opts"
    and "zappi_list server_conn \<noteq> []"
  shows "main pm_str today server_conn opts = ([], Some TypeError)"
proof -
  define st where "st = apply_opts opts
                 \<lparr>o_hourly = True, o_totals = OBool False, o_use_json = False,
                   o_show_month = False,
                   o_day = (case today of (y, m, d) \<Rightarrow>
                              \<lparr>tm_year = PInt y, tm_mon = PInt m, tm_mday = PInt d\<rparr>)\<rparr>"
  have j: "\<not> o_use_json st" and m: "o_show_month st"
    using assms by (simp_all add: st_def apply_opts_json apply_opts_show_month)
  from assms(1) have "filter (\<lambda>p. fst p = ''--day'') opts \<noteq> []"
    by (force simp add: filter_empty_conv)
  then obtain a ps where "filter (\<lambda>p. fst p = ''--day'') opts = a # ps"
    by (cases "filter (\<lambda>p. fst p = ''--day'') opts") auto
  then have d: "tm_mday (o_day st) = PStr (snd (last (a # ps)))"
    by (simp add: st_def apply_opts_day)
  from assms(4) obtain sno snos where z: "zappi_list server_conn = sno # snos"
    by (cases "zappi_list server_conn") auto
  have "zappi_step pm_str server_conn st sno
          \<lparr>v_day = o_day st, v_totals = o_totals st, v_headers = None, v_jout = [],
            v_show_headers = True\<rparr> = ([], Inl TypeError)"
    using j m d by (simp add: zappi_step_def month_range_def)
  then show ?thesis
    unfolding main_def st_def [symmetric] Let_def z by simp
qed

theorem day_option_month_TypeError_witness:
  "main show_sum (2024, 3, 4) no_data [(''--day'', ''2''), (''--show-month'', '''')]
     = ([], Some TypeError)"
  using day_option_month_TypeError
          [of "[(''--day'', ''2''), (''--show-month'', '''')]" no_data show_sum "(2024, 3, 4)"]
  by (simp add: no_data_def)

text \<open>
  Claim C3, as amended. In the report of a day every channel accumulator starts from a
  zero sample at the seed time, which is -3600 for hourly and -60 for per-minute
  granularity: the cell of a channel in the totals row renders the accumulator fed from
  that seed with the samples of the day. The duration in the row of the first record is
  its sample time minus the seed time, whatever the time of that record; it is one full
  slot, 3600 or 60 seconds, for a first record at 00:00.
\<close>

theorem first_sample_against_seed:
  assumes "load_day pm_str server_conn zid day hourly False use_json show_headers =
             (out, Inr ((th, data, trow), sh))"
    and "(if hourly then get_hour_data server_conn zid day
          else get_minute_data server_conn zid day) = rec # res"
  shows "(\<forall>j<length headers.
            trow ! (j + 2) =
              CStr (pm_str (feed hourly (headers ! j)
                              (add_value PowerMeter_new 0 (if hourly then - 3600 else - 60))
                              (rec # res)))) \<and>
         (\<exists>h m. field0 rec ''hr'' = PInt h \<and> field0 rec ''min'' = PInt m \<and>
            data ! 0 ! 1 = CInt ((h * 60 + m) * 60 - (if hourly then - 3600 else - 60)) \<and>
            (h = 0 \<and> m = 0 \<longrightarrow> data ! 0 ! 1 = CInt (if hourly then 3600 else 60)))"
proof -
  have res: "day_samples server_conn zid day hourly = rec # res"
    using assms(2) by (simp add: day_samples_def)
  note r = load_day_Inr [OF assms(1), unfolded res]
  from r have ok: "record_ok hourly rec" by simp
  from record_ok_time [OF ok] obtain h m where
    t: "field0 rec ''hr'' = PInt h" "field0 rec ''min'' = PInt m"
       "time_val rec = (h * 60 + m) * 60"
    by blast
  have "data ! 0 = row_val hourly (seed_time hourly) rec"
    using r data_val_row [of 0 "rec # res" pm_str hourly] by simp
  then have d: "data ! 0 ! 1 = CInt ((h * 60 + m) * 60 - seed_time hourly)"
    using t by (simp add: row_val_duration)
  have c: "\<forall>j<length headers.
            trow ! (j + 2) =
              CStr (pm_str (feed hourly (headers ! j)
                              (add_value PowerMeter_new 0 (seed_time hourly)) (rec # res)))"
    using r by (simp add: totals_val_cell)
  from c d t show ?thesis
    unfolding seed_time_def by (cases hourly) auto
qed

text \<open>
  Claim C8. In a per-minute report the cell of a channel present in a record is the
  watts \<open>v / volts * 4\<close> truncated toward zero by \<^verbatim>\<open>int\<close>, or \<^verbatim>\<open>None\<close> for an absent
  channel, while the cell of the channel in the totals row renders the accumulator fed
  (by \<open>feed\<close>) with the watts as they are, \<open>watts_val\<close>, which for an int value is
  \<open>v / volts * 4\<close> without truncation.
\<close>

theorem per_minute_rows_truncated_totals_exact:
  assumes "load_day pm_str server_conn zid day False False use_json show_headers =
             (out, Inr ((th, data, trow), sh))"
    and "i < length (get_minute_data server_conn zid day)"
    and "j < length headers"
  shows "(case map_of (get_minute_data server_conn zid day ! i) (headers ! j) of
            None \<Rightarrow> data ! i ! (j + 2) = CNone
          | Some val \<Rightarrow>
              (\<exists>v. val = PInt v \<and>
                 watts_val False (volts_val (get_minute_data server_conn zid day ! i)) (Some val)
                   = of_int v / volts_val (get_minute_data server_conn zid day ! i) * 4 \<and>
                 data ! i ! (j + 2) =
                   CInt (py_int (of_int v / volts_val (get_minute_data server_conn zid day ! i) * 4))))
         \<and> trow ! (j + 2) =
             CStr (pm_str (feed False (headers ! j) (add_value PowerMeter_new 0 (- 60))
                             (get_minute_data server_conn zid day)))"
proof -
  define res where "res = get_minute_data server_conn zid day"
  have res: "day_samples server_conn zid day False = res"
    by (simp add: day_samples_def res_def)
  note r = load_day_Inr [OF assms(1), unfolded res]
  have i: "i < length res" using assms(2) by (simp add: res_def)
  from r i have ok: "record_ok False (res ! i)"
    by (simp add: list_all_length)
  have key: "headers ! j \<in> set headers" using assms(3) by simp
  note chan = record_ok_chan [OF ok key]
  have cell: "data ! i ! (j + 2) = cell_val False (volts_val (res ! i)) (map_of (res ! i) (headers ! j))"
    using r i assms(3) by (simp add: data_val_row row_val_cell)
  have tot: "trow ! (j + 2) =
             CStr (pm_str (feed False (headers ! j) (add_value PowerMeter_new 0 (- 60)) res))"
    using r assms(3) by (simp add: totals_val_cell seed_time_def)
  show ?thesis
  proof (cases "map_of (res ! i) (headers ! j)")
    case None
    with cell tot show ?thesis
      by (simp add: res_def [symmetric] cell_val_def)
  next
    case (Some val)
    with chan obtain v where "val = PInt v"
      by (cases val) (simp_all add: chan_ok_def)
    with Some cell tot show ?thesis
      by (simp add: res_def [symmetric] cell_val_def watts_val_def)
  qed
qed

theorem first_sample_against_seed_witness:
  "load_day show_sum one_sample ''12345678'' a_day True False False True =
     ([PrintRec [(''xyz'', PInt 7)], PrintRecords 1,
       PrintTable (Some table_headers_val) [row_half, trow_half]],
      Inr ((table_headers_val, [row_half, trow_half], trow_half), False)) \<and>
   (if True then get_hour_data one_sample ''12345678'' a_day
    else get_minute_data one_sample ''12345678'' a_day) = rec_half # [] \<and>
   trow_half ! (0 + 2) =
     CStr (show_sum (feed True ''imp'' (add_value PowerMeter_new 0 (- 3600)) [rec_half])) \<and>
   [row_half, trow_half] ! 0 ! 1 = CInt 3600"
proof -
  have g: "(if True then get_hour_data one_sample ''12345678'' a_day
            else get_minute_data one_sample ''12345678'' a_day) = rec_half # []"
    by (simp add: one_sample_def)
  have l: "0 < length headers" and k: "headers ! 0 = ''imp''"
    by (simp_all add: headers_def)
  have f: "field0 rec_half ''hr'' = PInt 0" "field0 rec_half ''min'' = PInt 0"
    by (simp_all add: field0_def rec_half_def)
  from first_sample_against_seed [OF load_day_one_sample_hourly g]
  have "trow_half ! (0 + 2) =
          CStr (show_sum (feed True ''imp'' (add_value PowerMeter_new 0 (- 3600)) [rec_half])) \<and>
        [row_half, trow_half] ! 0 ! 1 = CInt 3600"
    using l k f by auto
  with load_day_one_sample_hourly g show ?thesis by blast
qed

theorem per_minute_rows_truncated_totals_exact_witness:
  "load_day show_sum one_sample ''12345678'' a_day False False False True =
     ([PrintRec [(''pect1'', PInt 3)], PrintRecords 1,
       PrintTable (Some table_headers_val) [row_minute, trow_minute]],
      Inr ((table_headers_val, [row_minute, trow_minute], trow_minute), False)) \<and>
   0 < length (get_minute_data one_sample ''12345678'' a_day) \<and>
   0 < length headers \<and>
   [row_minute, trow_minute] ! 0 ! (0 + 2) = CInt (py_int (of_int 40 / (2400 / 10) * 4)) \<and>
   row_minute ! 2 = CInt 0 \<and>
   trow_minute ! (0 + 2) =
     CStr (show_sum (feed False ''imp'' (add_value PowerMeter_new 0 (- 60)) [rec_minute])) \<and>
   feed False ''imp'' (add_value PowerMeter_new 0 (- 60)) [rec_minute]
     = \<lparr>pm_sum = 40, pm_last = 0\<rparr>"
proof -
  have i: "0 < length (get_minute_data one_sample ''12345678'' a_day)"
    and g: "get_minute_data one_sample ''12345678'' a_day = [rec_minute]"
    by (simp_all add: one_sample_def)
  have l: "0 < length headers" and k: "headers ! 0 = ''imp''"
    by (simp_all add: headers_def)
  have r: "map_of rec_minute ''imp'' = Some (PInt 40)" "volts_val rec_minute = 2400 / 10"
    by (simp_all add: rec_minute_def volts_val_def)
  have f: "feed False ''imp'' (add_value PowerMeter_new 0 (- 60)) [rec_minute]
             = \<lparr>pm_sum = 40, pm_last = 0\<rparr>"
  proof -
    have "time_val rec_minute = 0"
      by (simp add: time_val_def field0_def rec_minute_def)
    then show ?thesis
      by (simp add: r watts_val_def add_value_def PowerMeter_new_def)
  qed
  from per_minute_rows_truncated_totals_exact [OF load_day_one_sample_minute i l]
  have "[row_minute, trow_minute] ! 0 ! (0 + 2) = CInt (py_int (of_int 40 / (2400 / 10) * 4)) \<and>
        trow_minute ! (0 + 2) =
          CStr (show_sum (feed False ''imp'' (add_value PowerMeter_new 0 (- 60)) [rec_minute]))"
    unfolding g k by (simp add: r)
  moreover have "row_minute ! 2 = CInt 0" by (simp add: row_minute_def)
  ultimately show ?thesis
    using load_day_one_sample_minute i l f by blast
qed

text \<open>
  Claim C4. In JSON mode the entry of a device in \<^verbatim>\<open>jout\<close> is the list of the pairs of
  channel display name and total cell, taken from the table headers and the totals row
  of the day without their first two columns (\<^verbatim>\<open>Time\<close> and \<^verbatim>\<open>Duration\<close>), from which
  every pair with a falsy total has been left out. No key of it is \<^verbatim>\<open>Time\<close>.
\<close>

theorem json_totals_mapping:
  assumes "o_use_json st"
    and "zappi_step pm_str server_conn st sno vs = (out, Inr vs')"
  shows "\<exists>raw. map_of (v_jout vs') sno = Some raw \<and>
           raw = filter (\<lambda>p. truthy (snd p))
                   (zip (drop 2 table_headers_val)
                        (drop 2 (totals_val pm_str True
                                   (get_hour_data server_conn sno (v_day vs))))) \<and>
           (\<forall>p\<in>set raw. truthy (snd p) \<and> fst p \<in> set (drop 2 table_headers_val)) \<and>
           ''Time'' \<notin> fst ` set raw"
proof -
  define res where "res = get_hour_data server_conn sno (v_day vs)"
  define raw where
    "raw = filter (\<lambda>p. truthy (snd p))
             (zip (drop 2 table_headers_val) (drop 2 (totals_val pm_str True res)))"
  have ds: "day_samples server_conn sno (v_day vs) True = res"
    by (simp add: day_samples_def res_def)
  from assms obtain out1 header data totals sh where
    l: "load_day pm_str server_conn sno (v_day vs) True True True True =
          (out1, Inr ((header, data, totals), sh))"
    unfolding zappi_step_json [OF assms(1)] by (auto split: prod.splits sum.splits)
  note v = load_day_Inr [OF l, unfolded ds]
  have j: "json_row header totals [] = Inr (raw, [])"
    using v by (simp add: json_row_report raw_def)
  from assms(2) l j have "v_jout vs' = AList.update sno raw (v_jout vs)"
    unfolding zappi_step_json [OF assms(1)] by auto
  then have m: "map_of (v_jout vs') sno = Some raw"
    by (simp add: update_conv')
  have keys: "\<forall>p\<in>set raw. truthy (snd p) \<and> fst p \<in> set (drop 2 table_headers_val)"
    by (auto simp add: raw_def dest: set_zip_leftD)
  have "''Time'' \<notin> set (drop 2 table_headers_val)"
    by (simp add: table_headers_val_def)
  with keys have "''Time'' \<notin> fst ` set raw" by auto
  with m keys show ?thesis
    unfolding raw_def res_def by blast
qed

text \<open>
  Claim C9. In JSON mode the step of the device loop calls \<^verbatim>\<open>load_day\<close> with the three
  flags \<^verbatim>\<open>True\<close> (hourly, totals only, JSON), whatever \<^verbatim>\<open>hourly\<close> and \<^verbatim>\<open>totals\<close> hold; so
  with \<^verbatim>\<open>--json\<close> on the command line the whole run is the same with and without
  \<^verbatim>\<open>--per-minute\<close>.
\<close>

theorem json_mode_hourly_totals_only:
  assumes "''--json'' \<in> fst ` set opts"
  shows "main pm_str today server_conn opts =
           main pm_str today server_conn (filter (\<lambda>p. fst p \<noteq> ''--per-minute'') opts) \<and>
         (\<forall>st sno vs. o_use_json st \<longrightarrow>
            zappi_step pm_str server_conn st sno vs =
              (case load_day pm_str server_conn sno (v_day vs) True True True True of
                 (out, Inl e) \<Rightarrow> (out, Inl e)
               | (out, Inr ((header, data, totals), sh)) \<Rightarrow>
                   (case json_row header totals [] of
                      Inl e \<Rightarrow> (out, Inl e)
                    | Inr (raw, totals') \<Rightarrow>
                        (out, Inr (vs\<lparr>v_totals := OList totals',
                                       v_jout := AList.update sno raw (v_jout vs),
                                       v_show_headers := sh\<rparr>)))))"
proof -
  define st0 where "st0 =
     \<lparr>o_hourly = True, o_totals = OBool False, o_use_json = False, o_show_month = False,
       o_day = (case today of (y, m, d) \<Rightarrow>
                  \<lparr>tm_year = PInt y, tm_mon = PInt m, tm_mday = PInt d\<rparr>)\<rparr>"
  define st where "st = apply_opts opts st0"
  define st2 where "st2 = apply_opts (filter (\<lambda>p. fst p \<noteq> ''--per-minute'') opts) st0"
  from apply_opts_without_per_minute [of st0 st0 opts]
  have same: "o_day st2 = o_day st" "o_totals st2 = o_totals st" "o_use_json st2 = o_use_json st"
    by (simp_all add: st_def st2_def)
  have j: "o_use_json st" using assms by (simp add: st_def apply_opts_json)
  then have j2: "o_use_json st2" by (simp add: same)
  have "main pm_str today server_conn opts =
           main pm_str today server_conn (filter (\<lambda>p. fst p \<noteq> ''--per-minute'') opts)"
    unfolding main_def st0_def [symmetric] st_def [symmetric] st2_def [symmetric] Let_def
    by (simp add: zappi_loop_json [OF j j2] same)
  then show ?thesis
    by (simp add: zappi_step_json)
qed

text \<open>
  Claim C7, as amended. In month mode, with an int day of the month \<open>n\<close> of at least 1
  and days whose records are processed without raising, the step of a device runs the
  report of each day from 1 to \<open>n\<close> once, in ascending order (each announced by
  \<^verbatim>\<open>Day d\<close> and followed by what that day's report prints), and then prints one table
  whose rows are the totals rows of the days 1 to \<open>n\<close>, in that order: row \<open>d\<close> of the
  table is \<open>totals_val\<close> of the samples of day \<open>d\<close>, the totals row that the report of
  that day returns, and the table holds nothing else, so that a row is matched to its
  day by its position.
\<close>

theorem month_rollup_days:
  assumes "\<not> o_use_json st" and "o_show_month st"
    and "tm_mday (v_day vs) = PInt n" and "1 \<le> n"
    and "\<forall>d\<in>set [1..n]. list_all (record_ok (o_hourly st))
           (day_samples server_conn sno ((v_day vs)\<lparr>tm_mday := PInt d\<rparr>) (o_hourly st))"
  shows "\<exists>vs'. zappi_step pm_str server_conn st sno vs =
           (PrintDay 1 #
              printed_val pm_str (o_hourly st) (py_truth (v_totals vs)) False True
                (day_samples server_conn sno ((v_day vs)\<lparr>tm_mday := PInt 1\<rparr>) (o_hourly st))
            @ concat (map (\<lambda>d. PrintDay d #
                 printed_val pm_str (o_hourly st) True False False
                   (day_samples server_conn sno ((v_day vs)\<lparr>tm_mday := PInt d\<rparr>) (o_hourly st)))
                 [2..n])
            @ [PrintTable (Some table_headers_val)
                 (map (\<lambda>d. totals_val pm_str (o_hourly st)
                         (day_samples server_conn sno ((v_day vs)\<lparr>tm_mday := PInt d\<rparr>)
                            (o_hourly st)))
                    [1..n])],
            Inr vs')"
proof -
  define hourly where "hourly = o_hourly st"
  define vs0 where "vs0 = vs\<lparr>v_show_headers := True\<rparr>"
  define res1 where "res1 = day_samples server_conn sno ((v_day vs)\<lparr>tm_mday := PInt 1\<rparr>) hourly"
  define vs1 where "vs1 = vs0\<lparr>v_day := (v_day vs0)\<lparr>tm_mday := PInt 1\<rparr>,
                 v_totals := OList (totals_val pm_str hourly res1),
                 v_headers := Some table_headers_val, v_show_headers := False\<rparr>"
  have days: "[1..n] = 1 # [2..n]"
    using assms(4) by (simp add: upto_rec1)
  have ok1: "list_all (record_ok hourly)
               (day_samples server_conn sno ((v_day vs0)\<lparr>tm_mday := PInt 1\<rparr>) hourly)"
    using assms(5) by (simp add: days hourly_def vs0_def)
  have day: "(v_day vs1)\<lparr>tm_mday := PInt x\<rparr> = (v_day vs)\<lparr>tm_mday := PInt x\<rparr>" for x
    by (simp add: vs1_def vs0_def)
  have "py_truth (v_totals vs1)" "\<not> v_show_headers vs1"
    by (simp_all add: vs1_def totals_val_not_Nil)
  moreover have "\<forall>x\<in>set [2..n]. list_all (record_ok hourly)
           (day_samples server_conn sno ((v_day vs1)\<lparr>tm_mday := PInt x\<rparr>) hourly)"
    using assms(5) by (simp add: day days hourly_def)
  ultimately obtain vs' where
    later: "month_loop pm_str server_conn sno hourly False [2..n] vs1 ([] @ [totals_val pm_str hourly res1])
           ([] @ PrintDay 1 # printed_val pm_str hourly (py_truth (v_totals vs0)) False
                                 (v_show_headers vs0) res1) =
           (([] @ PrintDay 1 # printed_val pm_str hourly (py_truth (v_totals vs0)) False
                                  (v_show_headers vs0) res1)
              @ concat (map (\<lambda>d. PrintDay d #
                     printed_val pm_str hourly True False False
                       (day_samples server_conn sno ((v_day vs1)\<lparr>tm_mday := PInt d\<rparr>) hourly)) [2..n]),
            Inr (vs', ([] @ [totals_val pm_str hourly res1]) @ map (\<lambda>d. totals_val pm_str hourly
                       (day_samples server_conn sno ((v_day vs1)\<lparr>tm_mday := PInt d\<rparr>) hourly)) [2..n]))"
    and hs: "v_headers vs' = (if [2..n] = [] then v_headers vs1 else Some table_headers_val)"
    using month_loop_later [of vs1 "[2..n]" hourly server_conn sno pm_str] by blast
  have h: "v_headers vs' = Some table_headers_val"
    using hs by (simp add: vs1_def)
  have r1: "day_samples server_conn sno ((v_day vs0)\<lparr>tm_mday := PInt 1\<rparr>) hourly = res1"
    by (simp add: res1_def vs0_def)
  have loop: "month_loop pm_str server_conn sno hourly False [1..n] vs0 [] [] =
           ((PrintDay 1 # printed_val pm_str hourly (py_truth (v_totals vs)) False True res1)
              @ concat (map (\<lambda>d. PrintDay d #
                     printed_val pm_str hourly True False False
                       (day_samples server_conn sno ((v_day vs)\<lparr>tm_mday := PInt d\<rparr>) hourly)) [2..n]),
            Inr (vs', map (\<lambda>d. totals_val pm_str hourly
                       (day_samples server_conn sno ((v_day vs)\<lparr>tm_mday := PInt d\<rparr>) hourly)) [1..n]))"
    unfolding days month_loop_step [OF ok1] r1 vs1_def [symmetric] later
    by (simp add: day vs0_def res1_def)
  have "zappi_step pm_str server_conn st sno vs =
          (case month_loop pm_str server_conn sno hourly False [1..n] vs0 [] [] of
             (out, Inl e) \<Rightarrow> (out, Inl e)
           | (out, Inr (vs', all_data)) \<Rightarrow>
               (case v_headers vs' of
                  None \<Rightarrow> (out, Inl UnboundLocalError)
                | Some hs \<Rightarrow> (out @ [PrintTable (Some hs) all_data], Inr vs')))"
    using assms(1,2,3)
    by (simp add: zappi_step_def month_range_def Let_def vs0_def hourly_def)
  then show ?thesis
    unfolding loop hourly_def [symmetric] by (simp add: h res1_def)
qed

theorem month_rollup_days_witness:
  "\<not> o_use_json month_opts \<and> o_show_month month_opts \<and>
   tm_mday (v_day (start_vars (o_day month_opts))) = PInt 2 \<and> (1::int) \<le> 2 \<and>
   fst (zappi_step show_sum one_sample month_opts ''12345678'' (start_vars (o_day month_opts))) =
     [PrintDay 1, PrintRec [(''xyz'', PInt 7)], PrintRecords 1,
      PrintTable (Some table_headers_val) [row_half, trow_half],
      PrintDay 2, PrintRec [(''xyz'', PInt 7)], PrintRecords 1, PrintTable None [trow_half],
      PrintTable (Some table_headers_val) [trow_half, trow_half]] \<and>
   \<not> isl (snd (zappi_step show_sum one_sample month_opts ''12345678''
                  (start_vars (o_day month_opts))))"
proof -
  have a: "\<not> o_use_json month_opts" "o_show_month month_opts"
    "tm_mday (v_day (start_vars (o_day month_opts))) = PInt 2" "(1::int) \<le> 2"
    "o_hourly month_opts" "py_truth (v_totals (start_vars (o_day month_opts))) = False"
    by (simp_all add: month_opts_def start_vars_def)
  have ok: "\<forall>d\<in>set [1..2]. list_all (record_ok (o_hourly month_opts))
           (day_samples one_sample ''12345678''
              ((v_day (start_vars (o_day month_opts)))\<lparr>tm_mday := PInt d\<rparr>) (o_hourly month_opts))"
    by (simp add: a day_samples_one_sample record_ok_rec_half)
  have u: "[2..2] = [2::int]" "[1..2] = [1, 2::int]"
    by (simp_all add: upto_rec1)
  from month_rollup_days [OF a(1,2,3,4) ok, of show_sum]
  obtain vs' where
    "zappi_step show_sum one_sample month_opts ''12345678'' (start_vars (o_day month_opts)) =
       ([PrintDay 1, PrintRec [(''xyz'', PInt 7)], PrintRecords 1,
         PrintTable (Some table_headers_val) [row_half, trow_half],
         PrintDay 2, PrintRec [(''xyz'', PInt 7)], PrintRecords 1, PrintTable None [trow_half],
         PrintTable (Some table_headers_val) [trow_half, trow_half]], Inr vs')"
    unfolding u
    by (auto simp add: a(5,6) day_samples_one_sample printed_first_rec_half
          printed_later_rec_half trow_half_eq)
  with a show ?thesis by simp
qed

theorem json_totals_mapping_witness:
  "o_use_json json_opts \<and>
   zappi_step show_nonzero one_sample json_opts ''12345678'' (start_vars a_day) =
     ([PrintRec [(''xyz'', PInt 7)]], Inr json_vars) \<and>
   map_of (v_jout json_vars) ''12345678'' =
     Some [(''Imported'', CStr ''1800''), (''Generated'', CStr ''9000'')] \<and>
   drop 2 (totals_val show_nonzero True
             (get_hour_data one_sample ''12345678'' (v_day (start_vars a_day)))) =
     [CStr ''1800'', CStr '''', CStr '''', CStr ''9000'', CStr '''', CStr '''', CStr '''',
      CStr ''''] \<and>
   ''Time'' \<notin> fst ` set [(''Imported'', CStr ''1800''), (''Generated'', CStr ''9000'')]"
proof -
  have j: "o_use_json json_opts" by (simp add: json_opts_def)
  have g: "get_hour_data one_sample ''12345678'' (v_day (start_vars a_day)) = [rec_half]"
    by (simp add: one_sample_def)
  have t: "drop 2 (totals_val show_nonzero True [rec_half]) =
     [CStr ''1800'', CStr '''', CStr '''', CStr ''9000'', CStr '''', CStr '''', CStr '''',
      CStr '''']"
    by (simp add: trow_nonzero_eq trow_nonzero_def)
  have m: "map_of (v_jout json_vars) ''12345678'' =
     Some [(''Imported'', CStr ''1800''), (''Generated'', CStr ''9000'')]"
    by (simp add: json_vars_def)
  from json_totals_mapping [OF j zappi_step_json_nonzero] obtain raw where
    "map_of (v_jout json_vars) ''12345678'' = Some raw" and "''Time'' \<notin> fst ` set raw"
    by blast
  with m
  have "''Time'' \<notin> fst ` set [(''Imported'', CStr ''1800''), (''Generated'', CStr ''9000'')]"
    by simp
  with j zappi_step_json_nonzero m t g show ?thesis by simp
qed

theorem json_mode_hourly_totals_only_witness:
  "''--json'' \<in> fst ` set [(''--per-minute'', ''''), (''--json'', '''')] \<and>
   main show_sum (2024, 3, 4) one_sample [(''--per-minute'', ''''), (''--json'', '''')] =
     ([PrintRec [(''xyz'', PInt 7)], PrintJson [(''12345678'', json_half)]], None)"
proof -
  have a: "''--json'' \<in> fst ` set [(''--per-minute'', ''''), (''--json'', '''')]"
    by simp
  from json_mode_hourly_totals_only [OF a, of show_sum "(2024, 3, 4)" one_sample]
  have "main show_sum (2024, 3, 4) one_sample [(''--per-minute'', ''''), (''--json'', '''')] =
          main show_sum (2024, 3, 4) one_sample [(''--json'', '''')]"
    by simp
  with a main_json_rec_half show ?thesis by simp
qed

text \<open>
  Claim C5, as amended. Fields with unrecognized keys never change the run: with them
  and without them (\<open>strip_unknown\<close>) \<^verbatim>\<open>load_day\<close> raises the same error or returns the
  same table. For every record up to the first one that raises, every field that the
  loop body does not consume (no unrecognized key is ever consumed; a \<^verbatim>\<open>nect1\<close> or
  \<^verbatim>\<open>pect1\<close> is consumed only as a duplicate) is left in the record and printed with it by
  \<^verbatim>\<open>print(rec)\<close>. The run returns exactly when every record is well formed in its
  recognized fields (\<open>record_ok\<close>); otherwise it raises.
\<close>

theorem unrecognized_fields_reported:
  "snd (load_day pm_str (strip_unknown server_conn) zid day hourly totals use_json show_headers)
     = snd (load_day pm_str server_conn zid day hourly totals use_json show_headers) \<and>
   (\<forall>rec\<in>set (takeWhile (record_ok hourly) (day_samples server_conn zid day hourly)).
      \<forall>p\<in>set rec. fst p \<notin> consumed rec \<longrightarrow>
        PrintRec (leftover rec)
          \<in> set (fst (load_day pm_str server_conn zid day hourly totals use_json show_headers)) \<and>
        p \<in> set (leftover rec)) \<and>
   (\<forall>rec k. k \<notin> recognized \<longrightarrow> k \<notin> consumed rec) \<and>
   ((\<exists>x. snd (load_day pm_str server_conn zid day hourly totals use_json show_headers) = Inr x)
      \<longleftrightarrow> list_all (record_ok hourly) (day_samples server_conn zid day hourly))"
proof -
  define res where "res = day_samples server_conn zid day hourly"
  obtain more where
    out: "fst (load_day pm_str server_conn zid day hourly totals use_json show_headers) =
            diagnostics (takeWhile (record_ok hourly) res) @ more"
    using load_day_printed [of pm_str server_conn zid day hourly totals use_json show_headers]
    unfolding res_def by blast
  have printed: "PrintRec (leftover rec)
          \<in> set (fst (load_day pm_str server_conn zid day hourly totals use_json show_headers)) \<and>
        p \<in> set (leftover rec)"
    if "rec \<in> set (takeWhile (record_ok hourly) res)" "p \<in> set rec" "fst p \<notin> consumed rec"
    for rec p
  proof -
    from that have p: "p \<in> set (leftover rec)" by (simp add: not_consumed_in_leftover)
    then have "leftover rec \<noteq> []" by auto
    with that(1) have "PrintRec (leftover rec) \<in> set (diagnostics (takeWhile (record_ok hourly) res))"
      by (rule leftover_printed)
    with p show ?thesis by (simp add: out)
  qed
  have sub: "\<forall>rec k. k \<notin> recognized \<longrightarrow> k \<notin> consumed rec"
    using consumed_recognized by blast
  from load_day_known load_day_returns_iff printed sub show ?thesis
    unfolding res_def by blast
qed

text \<open>
  Claim C3 as stated fails: the duration of the first sample is a full slot only when
  the first record of the day is at 00:00. For an hourly day whose first record is at
  05:00 the duration in its row is 18000 + 3600 = 21600 seconds, six slots, and the
  accumulator weights the sample over the same 21600 seconds (1 watt gives the total
  21600).
\<close>

theorem first_sample_late_gap:
  "load_day show_sum late_sample ''12345678'' a_day True False False True =
     ([PrintRecords 1, PrintTable (Some table_headers_val) [row_late, trow_late]],
      Inr ((table_headers_val, [row_late, trow_late], trow_late), False)) \<and>
   get_hour_data late_sample ''12345678'' a_day = [rec_late] \<and>
   map_of rec_late ''hr'' = Some (PInt 5) \<and>
   [row_late, trow_late] ! 0 ! 1 = CInt 21600 \<and>
   (21600::int) \<noteq> 3600 \<and>
   trow_late ! 2 = CStr ''21600''"
  using load_day_late_sample
  by (simp add: late_sample_def rec_late_def row_late_def trow_late_def)

text \<open>
  Claim C5 as stated fails for a malformed field. A str value of the recognized field
  \<^verbatim>\<open>imp\<close> raises TypeError in the division of line 231: the run aborts, the second
  record of the day is never processed, and neither the unrecognized field \<^verbatim>\<open>abc\<close> of the
  first record nor \<^verbatim>\<open>xyz\<close> of the second is printed.
\<close>

theorem malformed_field_aborts:
  "load_day show_sum bad_sample ''12345678'' a_day True False False True = ([], Inl TypeError) \<and>
   get_hour_data bad_sample ''12345678'' a_day = [rec_bad, rec_half] \<and>
   map_of rec_bad ''imp'' = Some (PStr ''x'') \<and>
   (''abc'', PInt 1) \<in> set rec_bad \<and>
   (''xyz'', PInt 7) \<in> set rec_half"
  using load_day_bad_sample
  by (simp add: bad_sample_def rec_bad_def rec_half_def)

theorem unrecognized_fields_reported_witness:
  "snd (load_day show_sum (strip_unknown one_sample) ''12345678'' a_day True False False True)
     = snd (load_day show_sum one_sample ''12345678'' a_day True False False True) \<and>
   snd (load_day show_sum one_sample ''12345678'' a_day True False False True)
     = Inr ((table_headers_val, [row_half, trow_half], trow_half), False) \<and>
   rec_half \<in> set (takeWhile (record_ok True) (day_samples one_sample ''12345678'' a_day True)) \<and>
   (''xyz'', PInt 7) \<in> set rec_half \<and> ''xyz'' \<notin> recognized \<and>
   ''xyz'' \<notin> consumed rec_half \<and>
   leftover rec_half = [(''xyz'', PInt 7)] \<and>
   PrintRec (leftover rec_half)
     \<in> set (fst (load_day show_sum one_sample ''12345678'' a_day True False False True)) \<and>
   list_all (record_ok True) (day_samples one_sample ''12345678'' a_day True)"
proof -
  note t = unrecognized_fields_reported
             [of show_sum one_sample "''12345678''" a_day True False False True]
  have m: "rec_half \<in> set (takeWhile (record_ok True)
                              (day_samples one_sample ''12345678'' a_day True))"
    by (simp add: day_samples_one_sample record_ok_rec_half)
  have x: "(''xyz'', PInt 7) \<in> set rec_half" by (simp add: rec_half_def)
  have u: "''xyz'' \<notin> recognized" by (simp add: recognized_def headers_def)
  with t have c: "''xyz'' \<notin> consumed rec_half" by blast
  from t m x c have p: "PrintRec (leftover rec_half)
     \<in> set (fst (load_day show_sum one_sample ''12345678'' a_day True False False True))"
    by fastforce
  have ok: "list_all (record_ok True) (day_samples one_sample ''12345678'' a_day True)"
    by (simp add: day_samples_one_sample record_ok_rec_half)
  from t m x u c p ok leftover_rec_half load_day_one_sample_hourly show ?thesis
    by simp
qed

text \<open>
  Claim C7 as stated fails in "keyed by day": the month table is the bare list of the
  totals rows. For two days with the same samples the two rows of the table are equal,
  each starting with the label \<^verbatim>\<open>Totals\<close> and \<^verbatim>\<open>None\<close>, so that nothing in a row tells its
  day; the day is only printed on a line of its own, \<^verbatim>\<open>Day d\<close>, before the report of
  that day.
\<close>

theorem month_table_rows_not_keyed:
  "last (fst (zappi_step show_sum one_sample month_opts ''12345678''
                (start_vars (o_day month_opts))))
     = PrintTable (Some table_headers_val) [trow_half, trow_half] \<and>
   [trow_half, trow_half] ! 0 = [trow_half, trow_half] ! 1 \<and>
   take 2 trow_half = [CStr ''Totals'', CNone] \<and>
   take 2 table_headers_val = [''Time'', ''Duration'']"
  using month_one_sample
  by (simp add: trow_half_def table_headers_val_def)

text \<open>
  Claim C6, as amended. For a record processed without raising, the secondary field
  \<^verbatim>\<open>nect1\<close> is gone from what is left of the record exactly when \<^verbatim>\<open>imp\<close> is present with
  the same value (otherwise it stays, and is printed with the leftovers), and likewise
  \<^verbatim>\<open>pect1\<close> with \<^verbatim>\<open>exp\<close>. Dropping the secondary fields leaves the values of \<^verbatim>\<open>imp\<close> and
  \<^verbatim>\<open>exp\<close> in the record as they came. The row does not show these values themselves:
  the cell of \<^verbatim>\<open>imp\<close>, and of \<^verbatim>\<open>exp\<close>, is \<^verbatim>\<open>None\<close> for an absent channel; otherwise the
  value is an int \<open>v\<close> and the cell is the watts computed from it, \<open>v / 3600\<close> for an
  hourly and \<open>v / volts * 4\<close> for a per-minute record, truncated toward zero.
\<close>

theorem duplicate_secondary_dropped:
  assumes "normalize hourly prev pm rec = Inr (row, st, pm', rest)"
  shows "map_of rest ''nect1'' =
           (if map_of rec ''imp'' \<noteq> None \<and> map_of rec ''nect1'' = map_of rec ''imp'' then None
            else map_of rec ''nect1'') \<and>
         map_of rest ''pect1'' =
           (if map_of rec ''exp'' \<noteq> None \<and> map_of rec ''pect1'' = map_of rec ''exp'' then None
            else map_of rec ''pect1'') \<and>
         map_of (drop_duplicate ''exp'' ''pect1'' (drop_duplicate ''imp'' ''nect1'' rec)) ''imp''
           = map_of rec ''imp'' \<and>
         map_of (drop_duplicate ''exp'' ''pect1'' (drop_duplicate ''imp'' ''nect1'' rec)) ''exp''
           = map_of rec ''exp'' \<and>
         (case map_of rec ''imp'' of
            None \<Rightarrow> row ! 2 = CNone
          | Some val \<Rightarrow>
              (\<exists>v. val = PInt v \<and>
                 row ! 2 = CInt (py_int (if hourly then of_int v / 3600
                                         else of_int v / volts_val rec * 4)))) \<and>
         (case map_of rec ''exp'' of
            None \<Rightarrow> row ! 3 = CNone
          | Some val \<Rightarrow>
              (\<exists>v. val = PInt v \<and>
                 row ! 3 = CInt (py_int (if hourly then of_int v / 3600
                                         else of_int v / volts_val rec * 4))))"
proof -
  have n: "''nect1'' \<in> consumed rec \<longleftrightarrow> duplicate ''imp'' ''nect1'' rec"
    by (simp add: consumed_def removed_first_def headers_def)
  have p: "''pect1'' \<in> consumed rec \<longleftrightarrow> duplicate ''exp'' ''pect1'' rec"
    by (simp add: consumed_def removed_first_def headers_def)
  have rest: "rest = filter (\<lambda>p. fst p \<notin> consumed rec) rec"
    using normalize_values(3) [OF assms] by (simp add: leftover_def)
  have h: "headers ! 0 = ''imp''" "headers ! 1 = ''exp''" "0 < length headers"
    "1 < length headers" "headers ! Suc 0 = ''exp''"
    by (simp_all add: headers_def)
  from normalize_row_nth [OF assms h(3)] normalize_row_nth [OF assms h(4)]
  have cells: "row ! 2 = cell_val hourly (volts_val rec) (map_of rec ''imp'')"
    "row ! 3 = cell_val hourly (volts_val rec) (map_of rec ''exp'')"
    by (simp_all add: h eval_nat_numeral)
  have keys: "''imp'' \<in> set headers" "''exp'' \<in> set headers"
    by (simp_all add: headers_def)
  note ok = normalize_values(4) [OF assms]
  note chan = record_ok_chan [OF ok keys(1)] record_ok_chan [OF ok keys(2)]
  have kept: "map_of (drop_duplicate ''exp'' ''pect1'' (drop_duplicate ''imp'' ''nect1'' rec)) ''imp''
                = map_of rec ''imp''"
    "map_of (drop_duplicate ''exp'' ''pect1'' (drop_duplicate ''imp'' ''nect1'' rec)) ''exp''
                = map_of rec ''exp''"
    by (simp_all add: map_of_drop_duplicate_other)
  have c: "(case x of
              None \<Rightarrow> cell_val hourly volts x = CNone
            | Some val \<Rightarrow>
                (\<exists>v. val = PInt v \<and>
                   cell_val hourly volts x =
                     CInt (py_int (if hourly then of_int v / 3600 else of_int v / volts * 4))))"
    if "chan_ok hourly volts x" for volts x
    using that
    by (cases x; cases "the x"; cases hourly) (simp_all add: cell_val_def watts_val_def chan_ok_def)
  have secs: "map_of rest ''nect1'' =
           (if map_of rec ''imp'' \<noteq> None \<and> map_of rec ''nect1'' = map_of rec ''imp'' then None
            else map_of rec ''nect1'')"
      "map_of rest ''pect1'' =
           (if map_of rec ''exp'' \<noteq> None \<and> map_of rec ''pect1'' = map_of rec ''exp'' then None
            else map_of rec ''pect1'')"
    unfolding rest map_of_filter_keys n p
    by (auto simp add: duplicate_def)
  from secs kept c [OF chan(1)] c [OF chan(2)] show ?thesis
    unfolding cells by (intro conjI)
qed

theorem duplicate_secondary_dropped_witness:
  "normalize True (- 3600) (seed_totals (- 3600)) rec_half =
     Inr (row_half, 0, totals_half, [(''xyz'', PInt 7)]) \<and>
   map_of rec_half ''imp'' = Some (PInt 1800) \<and>
   map_of rec_half ''nect1'' = Some (PInt 1800) \<and>
   map_of [(''xyz'', PInt 7)] ''nect1'' = None \<and>
   map_of (drop_duplicate ''exp'' ''pect1'' (drop_duplicate ''imp'' ''nect1'' rec_half)) ''imp''
     = Some (PInt 1800) \<and>
   row_half ! 2 = CInt (py_int (1800 / 3600)) \<and>
   py_int (1800 / 3600) = 0"
proof -
  have r: "map_of rec_half ''imp'' = Some (PInt 1800)"
    "map_of rec_half ''nect1'' = Some (PInt 1800)"
    by (simp_all add: rec_half_def)
  have c: "py_int (1800 / 3600) = 0"
    by (simp add: py_int_fraction)
  from duplicate_secondary_dropped [OF normalize_rec_half]
  have "map_of [(''xyz'', PInt 7)] ''nect1'' = None \<and>
        map_of (drop_duplicate ''exp'' ''pect1'' (drop_duplicate ''imp'' ''nect1'' rec_half)) ''imp''
          = Some (PInt 1800) \<and>
        row_half ! 2 = CInt (py_int (1800 / 3600))"
    unfolding r by simp
  with normalize_rec_half r c show ?thesis by blast
qed

text \<open>
  Claim C6 as stated fails in "keep imported unmodified in output": the value of
  \<^verbatim>\<open>imp\<close> does not reach the output as it is. For an hourly record with \<^verbatim>\<open>imp\<close> and
  \<^verbatim>\<open>nect1\<close> both 1800 the secondary field is dropped, and the cell of \<^verbatim>\<open>imp\<close> in the row
  is \<open>int (1800 / 3600) = 0\<close>, not 1800.
\<close>

theorem canonical_value_not_kept_in_row:
  "normalize True (- 3600) (seed_totals (- 3600)) rec_half =
     Inr (row_half, 0, totals_half, [(''xyz'', PInt 7)]) \<and>
   map_of rec_half ''imp'' = Some (PInt 1800) \<and>
   map_of rec_half ''nect1'' = Some (PInt 1800) \<and>
   row_half ! 2 = CInt 0 \<and>
   CInt 0 \<noteq> CInt 1800"
  using normalize_rec_half
  by (simp add: rec_half_def row_half_def)

end
